theory Spec2Isabelle
  imports Complex_Main "HOL-Library.Log_Nat"
begin

section \<open>Numbers\<close>

text \<open>
  A JavaScript number is modelled as a \<^typ>\<open>real\<close>: the arithmetic of the source is
  read as exact arithmetic. Integers produced by \<open>Math.round\<close> are \<^typ>\<open>int\<close>.
  Where a statement depends on the rounding of IEEE-754 doubles, the rounding is written
  out separately (section \<open>Double rounding\<close>).
\<close>

definition js_round :: "real \<Rightarrow> int" where
  \<comment> \<open>\<open>Math.round\<close>: the nearest integer, a tie going up.\<close>
  "js_round x = \<lfloor>x + 1 / 2\<rfloor>"

section \<open>Smoothing store (face-filter.js)\<close>

text \<open>
  \<open>const _s = {}\<close>: an object used as a dictionary. A key is absent (\<open>undefined\<close>),
  or holds \<open>null\<close>, or holds a number; \<open>_s[key] == null\<close> is true in the first two cases.
\<close>

datatype slot = Null | Num real

type_synonym smooth_state = "string \<rightharpoonup> slot"

definition SMOOTH_ALPHA :: real where
  "SMOOTH_ALPHA = 38 / 100"

definition uninitialized :: "smooth_state \<Rightarrow> string \<Rightarrow> bool" where
  \<comment> \<open>\<open>_s[key] == null\<close>\<close>
  "uninitialized s key = (case s key of None \<Rightarrow> True | Some Null \<Rightarrow> True | Some (Num p) \<Rightarrow> False)"

definition smoothVal_at :: "real \<Rightarrow> smooth_state \<Rightarrow> string \<Rightarrow> real \<Rightarrow> real \<times> smooth_state" where
  \<comment> \<open>\<open>smoothVal\<close> with the smoothing factor as a parameter; returns the value and the new store.\<close>
  "smoothVal_at alpha s key v =
     (let r = (case s key of
                 None \<Rightarrow> v
               | Some Null \<Rightarrow> v
               | Some (Num p) \<Rightarrow> p * (1 - alpha) + v * alpha)
      in (r, s(key \<mapsto> Num r)))"

definition smoothVal :: "smooth_state \<Rightarrow> string \<Rightarrow> real \<Rightarrow> real \<times> smooth_state" where
  "smoothVal = smoothVal_at SMOOTH_ALPHA"

definition resetSmoothing :: "smooth_state \<Rightarrow> smooth_state" where
  \<comment> \<open>\<open>Object.keys(_s).forEach(k => { _s[k] = null; })\<close>\<close>
  "resetSmoothing s = (\<lambda>k. case s k of None \<Rightarrow> None | Some x \<Rightarrow> Some Null)"

fun repeat_update :: "real \<Rightarrow> string \<Rightarrow> real \<Rightarrow> nat \<Rightarrow> smooth_state \<Rightarrow> smooth_state" where
  \<comment> \<open>\<open>n\<close> calls \<open>smoothVal(key, v)\<close> in a row, on a constant input.\<close>
  "repeat_update alpha key v 0 s = s"
| "repeat_update alpha key v (Suc n) s = repeat_update alpha key v n (snd (smoothVal_at alpha s key v))"

definition stored :: "smooth_state \<Rightarrow> string \<Rightarrow> real" where
  \<comment> \<open>The number held for a key (0 when there is none; used on initialised keys only).\<close>
  "stored s key = (case s key of Some (Num p) \<Rightarrow> p | _ \<Rightarrow> 0)"

section \<open>Double rounding\<close>

text \<open>
  The numbers of the source are IEEE-754 doubles: every arithmetic operation returns the
  double nearest to the exact result, a tie going to the even significand. \<open>fl\<close> is this
  rounding to 53 significant bits; the exponent range is not modelled (no overflow to
  infinity, no subnormal numbers), which is of no consequence for pixel coordinates.
  \<open>binade x\<close> is the exponent \<open>e\<close> with \<open>2^e \<le> |x| < 2^(e+1)\<close>.
\<close>

definition binade :: "real \<Rightarrow> int" where
  "binade x = (if 1 \<le> \<bar>x\<bar> then bitlen \<lfloor>\<bar>x\<bar>\<rfloor> - 1 else - bitlen (\<lceil>1 / \<bar>x\<bar>\<rceil> - 1))"

definition round_half_even :: "real \<Rightarrow> int" where
  "round_half_even x =
     (let f = \<lfloor>x\<rfloor> in
      if x < real_of_int f + 1 / 2 then f
      else if real_of_int f + 1 / 2 < x then f + 1
      else if even f then f else f + 1)"

definition fl :: "real \<Rightarrow> real" where
  "fl x = (if x = 0 then 0
           else real_of_int (round_half_even (x / 2 powi (binade x - 52))) * 2 powi (binade x - 52))"

definition ALPHA64 :: real where
  "ALPHA64 = fl (38 / 100)"

definition v236 :: real where
  "v236 = 8309141312498565 / 35184372088832"


text \<open>
  \<open>smoothVal\<close> as the machine evaluates it: the constant \<open>0.38\<close> is the nearest double, and
  \<open>1 - SMOOTH_ALPHA\<close>, the two products and the sum are each rounded.
\<close>

definition smoothVal_f64 :: "smooth_state \<Rightarrow> string \<Rightarrow> real \<Rightarrow> real \<times> smooth_state" where
  "smoothVal_f64 s key v =
     (let r = (case s key of
                 None \<Rightarrow> v
               | Some Null \<Rightarrow> v
               | Some (Num p) \<Rightarrow> fl (fl (p * fl (1 - ALPHA64)) + fl (v * ALPHA64)))
      in (r, s(key \<mapsto> Num r)))"

section \<open>Landmark geometry resolver (face-filter.js)\<close>

record point =
  pt_x :: real
  pt_y :: real

record bounding_box =
  xCenter :: real
  yCenter :: real
  bwidth :: real
  bheight :: real

text \<open>
  \<open>det.landmarks\<close>: the detector's six key points, in the order of the source's comment
  (\<open>[0]\<close> right eye, \<open>[1]\<close> left eye, \<open>[2]\<close> nose, \<open>[3]\<close> mouth, \<open>[4]\<close> right ear,
  \<open>[5]\<close> left ear). The field may be missing; the source then falls back on the box.
\<close>

record landmarks6 =
  lm_right_eye :: point
  lm_left_eye :: point
  lm_nose :: point
  lm_mouth :: point
  lm_right_ear :: point
  lm_left_ear :: point

record detection =
  boundingBox :: bounding_box
  landmarks :: "landmarks6 option"

text \<open>The raw pixel coordinates \<open>rBx\<close>, ..., \<open>rMy\<close> of one detection.\<close>

record raw_coords =
  rBx :: real
  rBy :: real
  rBw :: real
  rBh :: real
  rRex :: real
  rRey :: real
  rLex :: real
  rLey :: real
  rNx :: real
  rNy :: real
  rMx :: real
  rMy :: real

definition raw_of :: "real \<Rightarrow> real \<Rightarrow> detection \<Rightarrow> raw_coords" where
  "raw_of W H det =
     (let box = boundingBox det;
          lm = landmarks det;
          bx0 = xCenter box * W;
          by0 = yCenter box * H;
          bw0 = bwidth box * W;
          bh0 = bheight box * H
      in \<lparr> rBx = bx0, rBy = by0, rBw = bw0, rBh = bh0,
           rRex = (case lm of Some l \<Rightarrow> pt_x (lm_right_eye l) * W | None \<Rightarrow> bx0 - bw0 * (2 / 10)),
           rRey = (case lm of Some l \<Rightarrow> pt_y (lm_right_eye l) * H | None \<Rightarrow> by0 - bh0 * (1 / 10)),
           rLex = (case lm of Some l \<Rightarrow> pt_x (lm_left_eye l) * W | None \<Rightarrow> bx0 + bw0 * (2 / 10)),
           rLey = (case lm of Some l \<Rightarrow> pt_y (lm_left_eye l) * H | None \<Rightarrow> by0 - bh0 * (1 / 10)),
           rNx = (case lm of Some l \<Rightarrow> pt_x (lm_nose l) * W | None \<Rightarrow> bx0),
           rNy = (case lm of Some l \<Rightarrow> pt_y (lm_nose l) * H | None \<Rightarrow> by0 + bh0 * (7 / 100)),
           rMx = (case lm of Some l \<Rightarrow> pt_x (lm_mouth l) * W | None \<Rightarrow> bx0),
           rMy = (case lm of Some l \<Rightarrow> pt_y (lm_mouth l) * H | None \<Rightarrow> by0 + bh0 * (28 / 100)) \<rparr>)"

text \<open>The object handed to \<open>drawDecoration\<close> (the canonical face frame).\<close>

record face_params =
  p_bx :: real
  p_by :: real
  p_bw :: real
  p_bh :: real
  p_rex :: real
  p_rey :: real
  p_lex :: real
  p_ley :: real
  p_nx :: real
  p_ny :: real
  p_mx :: real
  p_my :: real
  p_eyeMidX :: real
  p_eyeMidY :: real
  p_eyeSep :: real
  p_faceTop :: real
  p_faceBot :: real
  p_faceLeft :: real
  p_faceRight :: real
  p_W :: real
  p_H :: real

definition smooth_frame :: "real \<Rightarrow> real \<Rightarrow> raw_coords \<Rightarrow> smooth_state \<Rightarrow> face_params \<times> smooth_state" where
  \<comment> \<open>The twelve \<open>smoothVal\<close> calls, in the order of the source, and the derived coordinates.\<close>
  "smooth_frame W H r s0 =
     (let (bx, s1) = smoothVal s0 ''bx'' (rBx r);
          (by0, s2) = smoothVal s1 ''by'' (rBy r);
          (bw, s3) = smoothVal s2 ''bw'' (rBw r);
          (bh, s4) = smoothVal s3 ''bh'' (rBh r);
          (rex, s5) = smoothVal s4 ''rex'' (rRex r);
          (rey, s6) = smoothVal s5 ''rey'' (rRey r);
          (lex, s7) = smoothVal s6 ''lex'' (rLex r);
          (ley, s8) = smoothVal s7 ''ley'' (rLey r);
          (nx, s9) = smoothVal s8 ''nx'' (rNx r);
          (ny, s10) = smoothVal s9 ''ny'' (rNy r);
          (mx, s11) = smoothVal s10 ''mx'' (rMx r);
          (my, s12) = smoothVal s11 ''my'' (rMy r)
      in (\<lparr> p_bx = bx, p_by = by0, p_bw = bw, p_bh = bh,
             p_rex = rex, p_rey = rey, p_lex = lex, p_ley = ley,
             p_nx = nx, p_ny = ny, p_mx = mx, p_my = my,
             p_eyeMidX = (rex + lex) / 2,
             p_eyeMidY = (rey + ley) / 2,
             p_eyeSep = \<bar>rex - lex\<bar>,
             p_faceTop = by0 - bh * (1 / 2),
             p_faceBot = by0 + bh * (1 / 2),
             p_faceLeft = bx - bw * (1 / 2),
             p_faceRight = bx + bw * (1 / 2),
             p_W = W, p_H = H \<rparr>, s12))"

definition face_frame :: "real \<Rightarrow> real \<Rightarrow> detection \<Rightarrow> smooth_state \<Rightarrow> face_params \<times> smooth_state" where
  "face_frame W H det s = smooth_frame W H (raw_of W H det) s"

text \<open>
  The overlay canvas \<open>faceCanvas\<close>. Its pixels are represented by the decorations drawn on
  it since it was last cleared: \<open>clearRect(0, 0, width, height)\<close> leaves none, which is the
  fully transparent surface. A decoration is recorded with the mirroring in force
  (\<open>translate(W, 0); scale(-1, 1)\<close>), the decoration id and the frame handed to
  \<open>drawDecoration\<close>.
\<close>

datatype overlay_op = Decoration bool string face_params

record overlay =
  ov_width :: nat
  ov_height :: nat
  ov_ops :: "overlay_op list"

definition clearRect_all :: "overlay \<Rightarrow> overlay" where
  "clearRect_all cv = cv\<lparr>ov_ops := []\<rparr>"

definition transparent :: "overlay \<Rightarrow> bool" where
  "transparent cv = (ov_ops cv = [])"

record face_state =
  store :: smooth_state
  faceCanvas :: "overlay option"
  faceCtx :: bool
  currentDecorationId :: string
  currentFacingMode :: string

definition draw_detection :: "real \<Rightarrow> real \<Rightarrow> bool \<Rightarrow> string \<Rightarrow> detection
    \<Rightarrow> overlay \<times> smooth_state \<Rightarrow> overlay \<times> smooth_state" where
  \<comment> \<open>The body of \<open>results.detections.forEach\<close>.\<close>
  "draw_detection W H isFlipped decoId det cs =
     (let (cv, s) = cs;
          (p, s') = face_frame W H det s
      in (cv\<lparr>ov_ops := ov_ops cv @ [Decoration isFlipped decoId p]\<rparr>, s'))"

definition onFaceResults :: "detection list option \<Rightarrow> face_state \<Rightarrow> face_state" where
  \<comment> \<open>The argument is \<open>results.detections\<close>, which may be missing.\<close>
  "onFaceResults detections st =
     (case faceCanvas st of
        None \<Rightarrow> st
      | Some cv0 \<Rightarrow>
          if \<not> faceCtx st then st
          else
            let cv = clearRect_all cv0 in
            (case detections of
               None \<Rightarrow> st\<lparr>store := resetSmoothing (store st), faceCanvas := Some cv\<rparr>
             | Some [] \<Rightarrow> st\<lparr>store := resetSmoothing (store st), faceCanvas := Some cv\<rparr>
             | Some (d # ds) \<Rightarrow>
                 if currentDecorationId st = ''none'' then st\<lparr>faceCanvas := Some cv\<rparr>
                 else
                   let W = real (ov_width cv);
                       H = real (ov_height cv);
                       isFlipped = (currentFacingMode st = ''user'');
                       (cv', s') = fold (draw_detection W H isFlipped (currentDecorationId st))
                                     (d # ds) (cv, store st)
                   in st\<lparr>store := s', faceCanvas := Some cv'\<rparr>))"

fun cycles :: "detection list option list \<Rightarrow> face_state \<Rightarrow> face_state" where
  \<comment> \<open>Consecutive detection cycles, one result each.\<close>
  "cycles [] st = st"
| "cycles (r # rs) st = cycles rs (onFaceResults r st)"

fun frames_of :: "real \<Rightarrow> real \<Rightarrow> detection list \<Rightarrow> smooth_state \<Rightarrow> face_params list" where
  \<comment> \<open>The frames handed to \<open>drawDecoration\<close> during one \<open>forEach\<close>, in order.\<close>
  "frames_of W H [] s = []"
| "frames_of W H (d # ds) s = fst (face_frame W H d s) # frames_of W H ds (snd (face_frame W H d s))"


text \<open>Concrete inputs: two faces side by side on a 640 x 480 overlay, the crown selected.\<close>

definition face_A :: detection where
  "face_A = \<lparr> boundingBox = \<lparr> xCenter = 1 / 4, yCenter = 1 / 2, bwidth = 1 / 5, bheight = 3 / 10 \<rparr>,
              landmarks = None \<rparr>"


definition blank_overlay :: overlay where
  "blank_overlay = \<lparr> ov_width = 640, ov_height = 480, ov_ops = [] \<rparr>"

definition tracking_start :: face_state where
  "tracking_start = \<lparr> store = Map.empty, faceCanvas = Some blank_overlay, faceCtx = True,
       currentDecorationId = ''crown'', currentFacingMode = ''user'' \<rparr>"

definition zero_run5 :: "detection list option list" where
  "zero_run5 = [Some [], Some [], None, Some [], Some []]"

section \<open>Capture compositor: crop and output size (capture.js)\<close>

text \<open>
  The geometry computed at the start of \<open>captureImage\<close>, for a video of natural size
  \<open>videoW\<close> x \<open>videoH\<close>: the crop rectangle in the video and the size of the output canvas.
\<close>

record crop_geometry =
  srcX :: int
  srcY :: int
  srcW :: int
  srcH :: int
  outW :: int
  outH :: int

definition crop_rect :: "nat \<Rightarrow> nat \<Rightarrow> int \<times> int \<times> int \<times> int" where
  "crop_rect videoW videoH =
     (let targetAspect = (4 / 3 :: real);
          videoAspect = real videoW / real videoH
      in if videoAspect > targetAspect then
           (let sh = int videoH;
                sw = js_round (real videoH * targetAspect);
                sx = js_round ((real videoW - real_of_int sw) / 2)
            in (sx, 0, sw, sh))
         else
           (let sw = int videoW;
                sh = js_round (real videoW / targetAspect);
                sy = js_round ((real videoH - real_of_int sh) / 2)
            in (0, sy, sw, sh)))"

definition out_scale :: "int \<Rightarrow> int \<Rightarrow> real" where
  "out_scale sw sh = min (min (1920 / real_of_int sw) (1920 / real_of_int sh)) 1"

definition crop_and_scale :: "nat \<Rightarrow> nat \<Rightarrow> crop_geometry" where
  "crop_and_scale videoW videoH =
     (let (sx, sy, sw, sh) = crop_rect videoW videoH;
          scale = out_scale sw sh
      in \<lparr> srcX = sx, srcY = sy, srcW = sw, srcH = sh,
           outW = js_round (real_of_int sw * scale),
           outH = js_round (real_of_int sh * scale) \<rparr>)"

section \<open>Capture compositor: layers (capture.js)\<close>

text \<open>
  The pixels of a canvas are represented by the drawing operations applied to it since it
  was created: two canvases with the same operations are pixel-identical. A drawing call
  of the platform either performs its operation or throws; which calls throw is a
  parameter \<open>throws\<close> of the model.
\<close>

datatype caption_line = DateLine int int int | TextLine string

datatype ink = Shadow | Accent | Light

datatype draw_op =
    Save
  | Restore
  | DrawVideo string bool crop_geometry
  | PixelPass string
  | DrawOverlay "overlay_op list" int int
  | DrawFrame int int
  | FillPanel real real real real
  | StrokePanel
  | FillText caption_line real real ink
  | Transfer

text \<open>
  The outcome of a sequence of drawing calls on a canvas: it returned, or one call threw.
  Both carry the operations on the canvas at that moment; \<open>Thrown\<close> also names the call.
\<close>

datatype outcome = Returned "draw_op list" | Thrown draw_op "draw_op list"

definition emit :: "(draw_op \<Rightarrow> bool) \<Rightarrow> draw_op \<Rightarrow> draw_op list \<Rightarrow> outcome" where
  "emit throws op cv = (if throws op then Thrown op cv else Returned (cv @ [op]))"

fun and_then :: "outcome \<Rightarrow> (draw_op list \<Rightarrow> outcome) \<Rightarrow> outcome" where
  "and_then (Returned cv) f = f cv"
| "and_then (Thrown op cv) f = Thrown op cv"

fun canvas_of :: "outcome \<Rightarrow> draw_op list" where
  "canvas_of (Returned cv) = cv"
| "canvas_of (Thrown op cv) = cv"

fun thrown_of :: "outcome \<Rightarrow> draw_op list" where
  "thrown_of (Returned cv) = []"
| "thrown_of (Thrown op cv) = [op]"

record message_field =
  enabled :: bool
  fvalue :: string

record message_config =
  cfg_date :: message_field
  cfg_text :: message_field
  cfg_location :: message_field

definition has_field :: "message_field \<Rightarrow> bool" where
  \<comment> \<open>\<open>cfg.f && cfg.f.enabled && cfg.f.value\<close>: enabled, with a non-empty string.\<close>
  "has_field f = (enabled f \<and> fvalue f \<noteq> [])"

definition caption_lines :: "(string \<Rightarrow> (int \<times> int \<times> int) option) \<Rightarrow> message_config \<Rightarrow> caption_line list" where
  \<comment> \<open>\<open>parse_date\<close> stands for \<open>new Date(value)\<close>: \<open>None\<close> when \<open>isNaN(d)\<close>, otherwise
      \<open>getFullYear()\<close>, \<open>getMonth()\<close> and \<open>getDate()\<close>.\<close>
  "caption_lines parse_date cfg =
     (if has_field (cfg_date cfg) then
        (case parse_date (fvalue (cfg_date cfg)) of
           None \<Rightarrow> []
         | Some (y, m, d) \<Rightarrow> [DateLine y (m + 1) d])
      else [])
     @ (if has_field (cfg_text cfg) then [TextLine (fvalue (cfg_text cfg))] else [])
     @ (if has_field (cfg_location cfg) then [TextLine (fvalue (cfg_location cfg))] else [])"

fun draw_lines :: "(draw_op \<Rightarrow> bool) \<Rightarrow> real \<Rightarrow> real \<Rightarrow> real \<Rightarrow> real \<Rightarrow> nat
    \<Rightarrow> caption_line list \<Rightarrow> draw_op list \<Rightarrow> outcome" where
  \<comment> \<open>\<open>lines.forEach((line, i) => ...)\<close>, from index \<open>i\<close> on.\<close>
  "draw_lines throws width boxY baseFontSize lineH i [] cv = Returned cv"
| "draw_lines throws width boxY baseFontSize lineH i (line # rest) cv =
     (let y = boxY + baseFontSize * (9 / 10) + (real i + 1 / 2) * lineH
      in and_then (emit throws (FillText line (width / 2 + 1) (y + 1) Shadow) cv) (\<lambda>cv1.
         and_then (emit throws (FillText line (width / 2) y (if i = 0 then Accent else Light)) cv1) (\<lambda>cv2.
         draw_lines throws width boxY baseFontSize lineH (Suc i) rest cv2)))"

definition drawMessageOnCanvas :: "(draw_op \<Rightarrow> bool) \<Rightarrow> (string \<Rightarrow> (int \<times> int \<times> int) option)
    \<Rightarrow> message_config option \<Rightarrow> real \<Rightarrow> real \<Rightarrow> draw_op list \<Rightarrow> outcome" where
  "drawMessageOnCanvas throws parse_date messageConfig width height cv =
     (case messageConfig of
        None \<Rightarrow> Returned cv
      | Some cfg \<Rightarrow>
          if \<not> has_field (cfg_date cfg) \<and> \<not> has_field (cfg_text cfg) \<and> \<not> has_field (cfg_location cfg)
          then Returned cv
          else
            and_then (emit throws Save cv) (\<lambda>cv1.
              let baseFontSize = real_of_int (js_round (height * (28 / 1000)));
                  lineH = baseFontSize * (17 / 10);
                  lines = caption_lines parse_date cfg
              in if lines = [] then emit throws Restore cv1
                 else
                   let totalH = real (length lines) * lineH + baseFontSize * (14 / 10);
                       boxW = width * (88 / 100);
                       boxH = totalH + baseFontSize;
                       boxX = (width - boxW) / 2;
                       boxY = height - boxH - height * (4 / 100)
                   in and_then (emit throws (FillPanel boxX boxY boxW boxH) cv1) (\<lambda>cv2.
                      and_then (emit throws StrokePanel cv2) (\<lambda>cv3.
                      and_then (draw_lines throws width boxY baseFontSize lineH 0 lines cv3) (\<lambda>cv4.
                      emit throws Restore cv4)))))"

definition panel_drawn :: "draw_op list \<Rightarrow> bool" where
  "panel_drawn ops = (\<exists>op \<in> set ops. case op of FillPanel x y w h \<Rightarrow> True | _ \<Rightarrow> False)"

record video =
  videoWidth :: nat
  videoHeight :: nat

record frame_image =
  complete :: bool
  naturalWidth :: nat

record filter_def =
  filter_id :: string
  cssFilter :: string
  has_apply :: bool

record canvas =
  cv_width :: int
  cv_height :: int
  cv_ops :: "draw_op list"

datatype alert = NotReady | CaptureFailed

text \<open>
  What \<open>captureImage\<close> reads: the globals of the other modules. A function of another
  module that may not be loaded (\<open>typeof f === 'function'\<close>) is an option or a flag.
\<close>

record capture_env =
  cameraVideo :: "video option"
  facingMode :: string
  getCanvasFilterString :: "string option"
  applyFilterToCanvas_defined :: bool
  getCurrentFilter :: "filter_def option"
  drawFaceFilter_defined :: bool
  overlayCanvas :: "overlay option"
  decorationId :: string
  frameImage :: "frame_image option"
  messageConfig :: "message_config option"
  parse_date :: "string \<Rightarrow> (int \<times> int \<times> int) option"
  throws :: "draw_op \<Rightarrow> bool"

text \<open>
  What \<open>captureImage\<close> changes. \<open>swallowed\<close> is not in the source: it records the drawing
  calls whose exception an inner \<open>try {...} catch (_) {}\<close> discarded, so that statements can
  speak about them.
\<close>

record app_state =
  resultCanvas :: canvas
  screen :: string
  alerts :: "alert list"
  captureBtn_disabled :: bool
  swallowed :: "draw_op list"

definition drawFaceFilterOnCanvas :: "capture_env \<Rightarrow> int \<Rightarrow> int \<Rightarrow> draw_op list \<Rightarrow> outcome" where
  "drawFaceFilterOnCanvas env w h cv =
     (case overlayCanvas env of
        None \<Rightarrow> Returned cv
      | Some fc \<Rightarrow>
          if decorationId env = ''none'' then Returned cv
          else emit (throws env) (DrawOverlay (ov_ops fc) w h) cv)"

definition capture_failed :: "app_state \<Rightarrow> app_state" where
  \<comment> \<open>The outer \<open>catch (err)\<close>.\<close>
  "capture_failed st = st\<lparr>alerts := alerts st @ [CaptureFailed], captureBtn_disabled := False\<rparr>"

definition video_ready :: "capture_env \<Rightarrow> bool" where
  "video_ready env = (case cameraVideo env of None \<Rightarrow> False
     | Some v \<Rightarrow> videoWidth v \<noteq> 0 \<and> videoHeight v \<noteq> 0)"

definition layer1 :: "capture_env \<Rightarrow> crop_geometry \<Rightarrow> outcome" where
  \<comment> \<open>Layers 1 and 1b on the fresh work canvas: the camera frame, then the pixel pass.\<close>
  "layer1 env g =
     (let filterStr = (case getCanvasFilterString env of Some f \<Rightarrow> f | None \<Rightarrow> ''none'')
      in and_then (emit (throws env) (DrawVideo filterStr (facingMode env = ''user'') g) [])
           (\<lambda>cv1.
             if applyFilterToCanvas_defined env then
               (case getCurrentFilter env of
                  None \<Rightarrow> Returned cv1
                | Some f \<Rightarrow> if has_apply f then emit (throws env) (PixelPass (filter_id f)) cv1
                            else Returned cv1)
             else Returned cv1))"

definition layer2 :: "capture_env \<Rightarrow> crop_geometry \<Rightarrow> draw_op list \<Rightarrow> outcome" where
  "layer2 env g cv =
     (if drawFaceFilter_defined env then drawFaceFilterOnCanvas env (outW g) (outH g) cv
      else Returned cv)"

definition layer3 :: "capture_env \<Rightarrow> crop_geometry \<Rightarrow> draw_op list \<Rightarrow> outcome" where
  "layer3 env g cv =
     (case frameImage env of
        None \<Rightarrow> Returned cv
      | Some img \<Rightarrow>
          if complete img \<and> naturalWidth img > 0
          then emit (throws env) (DrawFrame (outW g) (outH g)) cv
          else Returned cv)"

definition layer4 :: "capture_env \<Rightarrow> crop_geometry \<Rightarrow> draw_op list \<Rightarrow> outcome" where
  "layer4 env g cv =
     drawMessageOnCanvas (throws env) (parse_date env) (messageConfig env)
       (real_of_int (outW g)) (real_of_int (outH g)) cv"

definition captureImage :: "capture_env \<Rightarrow> app_state \<Rightarrow> app_state" where
  "captureImage env st =
     (case cameraVideo env of
        None \<Rightarrow> st\<lparr>alerts := alerts st @ [NotReady], captureBtn_disabled := False\<rparr>
      | Some v \<Rightarrow>
          if videoWidth v = 0 \<or> videoHeight v = 0
          then st\<lparr>alerts := alerts st @ [NotReady], captureBtn_disabled := False\<rparr>
          else
            let g = crop_and_scale (videoWidth v) (videoHeight v) in
            (case layer1 env g of
               Thrown op cv \<Rightarrow> capture_failed st
             | Returned cv1 \<Rightarrow>
                 let r2 = layer2 env g cv1;
                     r3 = layer3 env g (canvas_of r2);
                     r4 = layer4 env g (canvas_of r3);
                     st' = st\<lparr>swallowed := swallowed st @ thrown_of r2 @ thrown_of r3 @ thrown_of r4\<rparr>
                 in if throws env Transfer
                    then capture_failed
                           (st'\<lparr>resultCanvas := \<lparr>cv_width = outW g, cv_height = outH g, cv_ops = []\<rparr>\<rparr>)
                    else st'\<lparr>resultCanvas := \<lparr>cv_width = outW g, cv_height = outH g,
                                                cv_ops = canvas_of r4\<rparr>,
                             screen := ''result''\<rparr>))"

text \<open>Vocabulary for statements about what a canvas holds.\<close>

fun text_of :: "draw_op \<Rightarrow> caption_line list" where
  "text_of (FillText l x y c) = (if c = Shadow then [] else [l])"
| "text_of op = []"

definition texts_drawn :: "draw_op list \<Rightarrow> caption_line list" where
  \<comment> \<open>The caption lines written (the shadow copies apart), in order.\<close>
  "texts_drawn ops = concat (map text_of ops)"

fun paints :: "draw_op \<Rightarrow> bool" where
  \<comment> \<open>\<open>save()\<close> and \<open>restore()\<close> change no pixel; every other operation may.\<close>
  "paints Save = False"
| "paints Restore = False"
| "paints op = True"

definition no_throw :: "draw_op \<Rightarrow> bool" where
  "no_throw op = False"

fun line_ops :: "real \<Rightarrow> real \<Rightarrow> real \<Rightarrow> real \<Rightarrow> nat \<Rightarrow> caption_line list \<Rightarrow> draw_op list" where
  \<comment> \<open>The operations of \<open>lines.forEach\<close> when no call throws.\<close>
  "line_ops width boxY bfs lineH i [] = []"
| "line_ops width boxY bfs lineH i (l # ls) =
     FillText l (width / 2 + 1) (boxY + bfs * (9 / 10) + (real i + 1 / 2) * lineH + 1) Shadow
     # FillText l (width / 2) (boxY + bfs * (9 / 10) + (real i + 1 / 2) * lineH)
         (if i = 0 then Accent else Light)
     # line_ops width boxY bfs lineH (Suc i) ls"

definition pixel_pass_of :: "capture_env \<Rightarrow> string option" where
  \<comment> \<open>The pixel pass that layer 1b runs, if any.\<close>
  "pixel_pass_of env =
     (if applyFilterToCanvas_defined env then
        (case getCurrentFilter env of
           None \<Rightarrow> None
         | Some f \<Rightarrow> if has_apply f then Some (filter_id f) else None)
      else None)"

definition video_op :: "capture_env \<Rightarrow> crop_geometry \<Rightarrow> draw_op" where
  "video_op env g = DrawVideo (case getCanvasFilterString env of Some f \<Rightarrow> f | None \<Rightarrow> ''none'')
     (facingMode env = ''user'') g"

definition layer1_throws :: "capture_env \<Rightarrow> crop_geometry \<Rightarrow> bool" where
  \<comment> \<open>Drawing the camera frame throws, or the pixel pass does.\<close>
  "layer1_throws env g =
     (throws env (video_op env g)
      \<or> (case pixel_pass_of env of None \<Rightarrow> False | Some pid \<Rightarrow> throws env (PixelPass pid)))"

definition layer1_ops :: "capture_env \<Rightarrow> crop_geometry \<Rightarrow> draw_op list" where
  "layer1_ops env g = video_op env g #
     (case pixel_pass_of env of None \<Rightarrow> [] | Some pid \<Rightarrow> [PixelPass pid])"

text \<open>Concrete inputs: a 1920 x 1080 front camera, no filter, no frame, a one-line caption.\<close>

fun text_throws :: "draw_op \<Rightarrow> bool" where
  "text_throws (FillText l x y c) = True"
| "text_throws op = False"

fun video_throws :: "draw_op \<Rightarrow> bool" where
  "video_throws (DrawVideo f m g) = True"
| "video_throws op = False"

definition one_date :: "string \<Rightarrow> (int \<times> int \<times> int) option" where
  "one_date s = (if s = ''2026-02-19'' then Some (2026, 1, 19) else None)"

definition text_only :: message_config where
  "text_only = \<lparr> cfg_date = \<lparr> enabled = False, fvalue = [] \<rparr>,
                 cfg_text = \<lparr> enabled = True, fvalue = ''Happy'' \<rparr>,
                 cfg_location = \<lparr> enabled = False, fvalue = [] \<rparr> \<rparr>"

definition bad_date_only :: message_config where
  "bad_date_only = \<lparr> cfg_date = \<lparr> enabled = True, fvalue = ''someday'' \<rparr>,
                     cfg_text = \<lparr> enabled = False, fvalue = ''Happy'' \<rparr>,
                     cfg_location = \<lparr> enabled = True, fvalue = [] \<rparr> \<rparr>"

definition video0 :: video where
  "video0 = \<lparr> videoWidth = 1920, videoHeight = 1080 \<rparr>"

definition capture_env0 :: capture_env where
  "capture_env0 = \<lparr> cameraVideo = Some video0,
       facingMode = ''user'', getCanvasFilterString = Some ''none'',
       applyFilterToCanvas_defined = False, getCurrentFilter = None,
       drawFaceFilter_defined = True, overlayCanvas = None, decorationId = ''none'',
       frameImage = None, messageConfig = Some text_only, parse_date = one_date,
       throws = no_throw \<rparr>"

definition app_state0 :: app_state where
  "app_state0 = \<lparr> resultCanvas = \<lparr> cv_width = 300, cv_height = 150, cv_ops = [] \<rparr>,
       screen = ''camera'', alerts = [], captureBtn_disabled = True, swallowed = [] \<rparr>"

definition g0 :: crop_geometry where
  "g0 = \<lparr> srcX = 240, srcY = 0, srcW = 1440, srcH = 1080, outW = 1440, outH = 1080 \<rparr>"

definition all_off :: message_config where
  "all_off = \<lparr> cfg_date = \<lparr> enabled = False, fvalue = ''2026-02-19'' \<rparr>,
               cfg_text = \<lparr> enabled = False, fvalue = ''Happy'' \<rparr>,
               cfg_location = \<lparr> enabled = False, fvalue = ''Tokyo'' \<rparr> \<rparr>"

text \<open>
  Further inputs: a pixel pass that throws (the noise filter selected, layer 1b), and a
  platform on which both \<open>fillText\<close> and the final copy to the result canvas throw.
\<close>

fun pixel_pass_throws :: "draw_op \<Rightarrow> bool" where
  "pixel_pass_throws (PixelPass f) = True"
| "pixel_pass_throws op = False"

fun text_and_copy_throw :: "draw_op \<Rightarrow> bool" where
  "text_and_copy_throw (FillText l x y c) = True"
| "text_and_copy_throw Transfer = True"
| "text_and_copy_throw op = False"

definition noise_filter :: filter_def where
  "noise_filter = \<lparr> filter_id = ''noise'', cssFilter = ''contrast(1.2) brightness(0.95)'',
                      has_apply = True \<rparr>"

definition capture_env_noise :: capture_env where
  "capture_env_noise = capture_env0\<lparr>getCanvasFilterString := Some (cssFilter noise_filter),
     applyFilterToCanvas_defined := True, getCurrentFilter := Some noise_filter,
     throws := pixel_pass_throws\<rparr>"

section \<open>Filter effects engine: pixel passes (filter.js)\<close>

text \<open>
  \<open>ImageData.data\<close>: a \<open>Uint8ClampedArray\<close> of four channels (R, G, B, A) per pixel, row by
  row. A read gives an integer; a write converts the number with \<open>toUint8Clamp\<close> (clamp to
  0..255, then round, a tie going to the even neighbour). A write past the end is ignored,
  as \<open>xs[i := v]\<close> is. \<open>Math.random()\<close> is a stream \<open>rnd\<close> of numbers and a position \<open>k\<close> in it;
  the passes that draw from it return the new position.
\<close>

type_synonym imagedata = "int list"

definition toUint8Clamp :: "real \<Rightarrow> int" where
  "toUint8Clamp x =
     (if x \<le> 0 then 0
      else if 255 \<le> x then 255
      else let f = \<lfloor>x\<rfloor> in
        if x < real_of_int f + 1 / 2 then f
        else if real_of_int f + 1 / 2 < x then f + 1
        else if even f then f else f + 1)"

text \<open>\<open>applyGrain\<close> (filter.js): \<open>data[j] = Math.min(255, Math.max(0, data[j] + noise))\<close>.\<close>

definition grain_px :: "int \<Rightarrow> real \<Rightarrow> int" where
  "grain_px v noise = toUint8Clamp (min 255 (max 0 (real_of_int v + noise)))"

text \<open>The body of the loop of \<open>applyGrain\<close>, for the pixel that starts at index \<open>i\<close>.\<close>

definition grain_pixel :: "real \<Rightarrow> bool \<Rightarrow> (nat \<Rightarrow> real) \<Rightarrow> nat \<Rightarrow> nat \<Rightarrow> imagedata \<Rightarrow> imagedata" where
  "grain_pixel intensity colorGrain rnd k i data =
     (let base = (rnd k - 1 / 2) * intensity * 2 in
      if colorGrain then
        (let d1 = data[i := grain_px (data ! i) (base + (rnd (k + 1) - 1 / 2) * intensity * (6 / 10))];
             d2 = d1[i + 1 := grain_px (d1 ! (i + 1)) (base + (rnd (k + 2) - 1 / 2) * intensity * (6 / 10))]
         in d2[i + 2 := grain_px (d2 ! (i + 2)) (base + (rnd (k + 3) - 1 / 2) * intensity * (6 / 10))])
      else
        (let d1 = data[i := grain_px (data ! i) base];
             d2 = d1[i + 1 := grain_px (d1 ! (i + 1)) base]
         in d2[i + 2 := grain_px (d2 ! (i + 2)) base]))"

definition grain_draws :: "bool \<Rightarrow> nat" where
  "grain_draws colorGrain = (if colorGrain then 4 else 1)"

function grain_loop :: "real \<Rightarrow> bool \<Rightarrow> (nat \<Rightarrow> real) \<Rightarrow> nat \<Rightarrow> nat \<Rightarrow> imagedata \<Rightarrow> imagedata \<times> nat" where
  "grain_loop intensity colorGrain rnd k i data =
     (if i < length data
      then grain_loop intensity colorGrain rnd (k + grain_draws colorGrain) (i + 4)
             (grain_pixel intensity colorGrain rnd k i data)
      else (data, k))"
  by pat_completeness auto
termination
  by (relation "measure (\<lambda>(intensity, colorGrain, rnd, k, i, data). length data - i)")
    (auto simp: grain_pixel_def Let_def)

declare grain_loop.simps [simp del]

definition applyGrain :: "real \<Rightarrow> bool \<Rightarrow> (nat \<Rightarrow> real) \<Rightarrow> nat \<Rightarrow> imagedata \<Rightarrow> imagedata \<times> nat" where
  "applyGrain intensity colorGrain rnd k data = grain_loop intensity colorGrain rnd k 0 data"

text \<open>
  \<open>applySketch\<close>: inside the two loops \<open>i - stride - 4\<close> is never negative, since
  \<open>y \<ge> 1\<close> and \<open>x \<ge> 1\<close>.
\<close>

definition gray :: "imagedata \<Rightarrow> nat \<Rightarrow> real" where
  "gray copy idx = (real_of_int (copy ! idx) + real_of_int (copy ! (idx + 1)) + real_of_int (copy ! (idx + 2))) / 3"

definition sketch_val :: "nat \<Rightarrow> imagedata \<Rightarrow> nat \<Rightarrow> real" where
  "sketch_val w copy i =
     (let stride = w * 4;
          tl = gray copy (i - stride - 4); tc = gray copy (i - stride); tr = gray copy (i - stride + 4);
          ml = gray copy (i - 4); mr = gray copy (i + 4);
          bl = gray copy (i + stride - 4); bc = gray copy (i + stride); br = gray copy (i + stride + 4);
          gx = - tl - 2 * ml - bl + tr + 2 * mr + br;
          gy = - tl - 2 * tc - tr + bl + 2 * bc + br;
          edge = min 255 (sqrt (gx * gx + gy * gy) * (16 / 10))
      in max 0 (255 - edge * (28 / 10)))"

definition sketch_px :: "nat \<Rightarrow> imagedata \<Rightarrow> nat \<Rightarrow> nat \<Rightarrow> imagedata \<Rightarrow> imagedata" where
  "sketch_px w copy y x data =
     (let i = (y * w + x) * 4;
          val = sketch_val w copy i
      in data[i + 2 := toUint8Clamp val, i + 1 := toUint8Clamp val, i := toUint8Clamp val])"

definition applySketch :: "nat \<Rightarrow> nat \<Rightarrow> imagedata \<Rightarrow> imagedata" where
  "applySketch w h data =
     fold (\<lambda>y d. fold (sketch_px w data y) [1 ..< w - 1] d) [1 ..< h - 1] data"

text \<open>
  \<open>applyWatercolor\<close>: the canvas draws the blurred copy (\<open>blur5\<close>, the platform's
  \<open>blur(5px)\<close>); the loop then pushes each channel away from the pixel's mean, and the pass
  ends with \<open>applyGrain(ctx, w, h, 7, false)\<close>.
\<close>

definition saturate_px :: "nat \<Rightarrow> imagedata \<Rightarrow> imagedata" where
  "saturate_px i data =
     (let r = real_of_int (data ! i); g = real_of_int (data ! (i + 1)); b = real_of_int (data ! (i + 2));
          avg = (r + g + b) / 3
      in data[i := toUint8Clamp (min 255 (real_of_int (js_round (avg + (r - avg) * (19 / 10))))),
              i + 1 := toUint8Clamp (min 255 (real_of_int (js_round (avg + (g - avg) * (19 / 10))))),
              i + 2 := toUint8Clamp (min 255 (real_of_int (js_round (avg + (b - avg) * (19 / 10)))))])"

function saturate_loop :: "nat \<Rightarrow> imagedata \<Rightarrow> imagedata" where
  "saturate_loop i data = (if i < length data then saturate_loop (i + 4) (saturate_px i data) else data)"
  by pat_completeness auto
termination
  by (relation "measure (\<lambda>(i, data). length data - i)") (auto simp: saturate_px_def Let_def)

declare saturate_loop.simps [simp del]

definition applyWatercolor :: "(imagedata \<Rightarrow> imagedata) \<Rightarrow> (nat \<Rightarrow> real) \<Rightarrow> nat \<Rightarrow> imagedata \<Rightarrow> imagedata \<times> nat" where
  "applyWatercolor blur5 rnd k data = applyGrain 7 False rnd k (saturate_loop 0 (blur5 data))"


text \<open>
  \<open>applyVignette\<close> and \<open>applyGlow\<close> only call the canvas: \<open>fillRect\<close> with a radial
  gradient, and three blurred, brightened copies of the snapshot drawn with the
  \<open>screen\<close> operator. The painting itself is the platform's, a parameter here.
\<close>

record radial_gradient =
  g_cx :: real
  g_cy :: real
  g_inner :: real
  g_outer :: real
  g_alpha :: real

definition vignette_gradient :: "nat \<Rightarrow> nat \<Rightarrow> real \<Rightarrow> radial_gradient" where
  "vignette_gradient w h strength =
     (let cx = real w / 2; cy = real h / 2
      in \<lparr> g_cx = cx, g_cy = cy, g_inner = min cx cy * (1 / 2),
           g_outer = sqrt (cx * cx + cy * cy) * (105 / 100), g_alpha = min 1 strength \<rparr>)"

definition applyVignette :: "(radial_gradient \<Rightarrow> imagedata \<Rightarrow> imagedata) \<Rightarrow> nat \<Rightarrow> nat \<Rightarrow> real \<Rightarrow> imagedata \<Rightarrow> imagedata" where
  "applyVignette fillRect w h strength data = fillRect (vignette_gradient w h strength) data"

definition applyGlow :: "(real \<Rightarrow> real \<Rightarrow> real \<Rightarrow> imagedata \<Rightarrow> imagedata \<Rightarrow> imagedata) \<Rightarrow> imagedata \<Rightarrow> imagedata" where
  "applyGlow screenLayer data =
     (let snapshot = data;
          d1 = screenLayer 20 (17 / 10) (45 / 100) snapshot data;
          d2 = screenLayer 9 (14 / 10) (32 / 100) snapshot d1;
          d3 = screenLayer 3 (115 / 100) (18 / 100) snapshot d2
      in d3)"

definition is_bytes :: "imagedata \<Rightarrow> bool" where
  "is_bytes d = list_all (\<lambda>v. 0 \<le> v \<and> v \<le> 255) d"

definition uniform_image :: "nat \<Rightarrow> nat \<Rightarrow> int \<Rightarrow> imagedata" where
  "uniform_image w h c = concat (replicate (w * h) [c, c, c, 255])"

definition grain_noise :: "real \<Rightarrow> bool \<Rightarrow> (nat \<Rightarrow> real) \<Rightarrow> nat \<Rightarrow> nat \<Rightarrow> real" where
  "grain_noise intensity colorGrain rnd k c =
     (rnd k - 1 / 2) * intensity * 2
     + (if colorGrain then (rnd (k + 1 + c) - 1 / 2) * intensity * (6 / 10) else 0)"

text \<open>Concrete surfaces and random streams.\<close>

definition black3x3 :: imagedata where
  "black3x3 = [0, 0, 0, 255, 0, 0, 0, 255, 0, 0, 0, 255,
               0, 0, 0, 255, 0, 0, 0, 255, 0, 0, 0, 255,
               0, 0, 0, 255, 0, 0, 0, 255, 0, 0, 0, 255]"

definition grey3x3 :: imagedata where
  "grey3x3 = [100, 100, 100, 255, 100, 100, 100, 255, 100, 100, 100, 255,
              100, 100, 100, 255, 100, 100, 100, 255, 100, 100, 100, 255,
              100, 100, 100, 255, 100, 100, 100, 255, 100, 100, 100, 255]"

definition rnd_34 :: "nat \<Rightarrow> real" where
  "rnd_34 n = 3 / 4"

definition rnd3 :: "nat \<Rightarrow> real" where
  "rnd3 n = (if n = 0 then 3 / 4 else if n = 1 then 1 / 4 else 1 / 2)"

definition grey_pixel :: imagedata where
  "grey_pixel = [100, 100, 100, 255]"

text \<open>
  The default grain mode as the specification words it: an independent draw for each of
  the three channels of a pixel.
\<close>

definition spec_default_grain :: "real \<Rightarrow> (nat \<Rightarrow> real) \<Rightarrow> nat \<Rightarrow> imagedata \<Rightarrow> nat \<Rightarrow> nat \<Rightarrow> int" where
  "spec_default_grain intensity rnd k data p c =
     grain_px (data ! (4 * p + c)) ((rnd (k + 3 * p + c) - 1 / 2) * intensity * 2)"

definition unit_random :: "(nat \<Rightarrow> real) \<Rightarrow> bool" where
  "unit_random rnd = (\<forall>j. 0 \<le> rnd j \<and> rnd j < 1)"

definition same_painter :: "'a \<Rightarrow> imagedata \<Rightarrow> imagedata" where
  "same_painter g x = x"

definition same_layer :: "real \<Rightarrow> real \<Rightarrow> real \<Rightarrow> imagedata \<Rightarrow> imagedata \<Rightarrow> imagedata" where
  "same_layer r b a s x = x"

section \<open>Smoothing store: properties\<close>

lemma uninitialized_resetSmoothing: "uninitialized (resetSmoothing s) k"
  by (simp add: uninitialized_def resetSmoothing_def split: option.splits)

lemma uninitialized_empty: "uninitialized Map.empty k"
  by (simp add: uninitialized_def)

lemma smoothVal_at_seed: "uninitialized s k \<Longrightarrow> fst (smoothVal_at a s k v) = v"
  by (simp add: uninitialized_def smoothVal_at_def Let_def split: option.splits slot.splits)

lemma smoothVal_at_blend: "s k = Some (Num p) \<Longrightarrow> fst (smoothVal_at a s k v) = p * (1 - a) + v * a"
  by (simp add: smoothVal_at_def Let_def)

lemma smoothVal_at_store: "snd (smoothVal_at a s k v) = s(k \<mapsto> Num (fst (smoothVal_at a s k v)))"
  by (simp add: smoothVal_at_def Let_def)

text \<open>
  C3. \<open>smoothVal(k, v)\<close> returns \<open>v\<close> unchanged when \<open>k\<close> is uninitialised (never
  used, or any use after \<open>resetSmoothing\<close>, which leaves every key uninitialised), and
  otherwise returns \<open>previous * (1 - 0.38) + v * 0.38\<close>; the returned value is stored as
  the new state of \<open>k\<close>, and no other key changes.
\<close>

theorem smoothVal_contract:
  "(uninitialized s k \<longrightarrow> fst (smoothVal s k v) = v)
   \<and> (\<forall>p. s k = Some (Num p) \<longrightarrow> fst (smoothVal s k v) = p * (1 - 38 / 100) + v * (38 / 100))
   \<and> snd (smoothVal s k v) k = Some (Num (fst (smoothVal s k v)))
   \<and> (\<forall>k'. k' \<noteq> k \<longrightarrow> snd (smoothVal s k v) k' = s k')
   \<and> uninitialized Map.empty k
   \<and> uninitialized (resetSmoothing s) k
   \<and> fst (smoothVal (resetSmoothing s) k v) = v"
  unfolding smoothVal_def SMOOTH_ALPHA_def
  by (simp add: smoothVal_at_seed smoothVal_at_blend smoothVal_at_store
      uninitialized_resetSmoothing uninitialized_empty)

theorem smoothVal_contract_witness:
  "uninitialized Map.empty ''bx'' \<and> fst (smoothVal Map.empty ''bx'' 100) = 100
   \<and> [''bx'' \<mapsto> Num 100] ''bx'' = Some (Num 100)
   \<and> fst (smoothVal [''bx'' \<mapsto> Num 100] ''bx'' 200) = 138
   \<and> ''by'' \<noteq> ''bx''
   \<and> snd (smoothVal [''bx'' \<mapsto> Num 100] ''bx'' 200) ''by'' = None
   \<and> snd (smoothVal [''bx'' \<mapsto> Num 100] ''bx'' 200) ''bx'' = Some (Num 138)"
  using smoothVal_contract [of Map.empty "''bx''" 100]
    smoothVal_contract [of "[''bx'' \<mapsto> Num 100]" "''bx''" 200]
  by (simp add: uninitialized_def)

section \<open>Smoothing store: convergence\<close>

lemma repeat_update_Num:
  "s k = Some (Num p) \<Longrightarrow> repeat_update a k v n s k = Some (Num (v + (1 - a) ^ n * (p - v)))"
proof (induction n arbitrary: s p)
  case 0
  then show ?case by simp
next
  case (Suc n)
  have "snd (smoothVal_at a s k v) k = Some (Num (p * (1 - a) + v * a))"
    using Suc.prems by (simp add: smoothVal_at_def Let_def)
  with Suc.IH [of "snd (smoothVal_at a s k v)" "p * (1 - a) + v * a"] show ?case
    by (simp add: algebra_simps)
qed

lemma stored_repeat_update:
  "s k = Some (Num p) \<Longrightarrow> stored (repeat_update a k v n s) k = v + (1 - a) ^ n * (p - v)"
  using repeat_update_Num [of s k p a v n] by (simp add: stored_def)

lemma repeat_update_uninit:
  "uninitialized s k \<Longrightarrow> repeat_update a k v (Suc n) s k = Some (Num v)"
proof -
  assume u: "uninitialized s k"
  have "snd (smoothVal_at a s k v) k = Some (Num v)"
    using u by (simp add: smoothVal_at_def Let_def uninitialized_def split: option.splits slot.splits)
  with repeat_update_Num [of "snd (smoothVal_at a s k v)" k v a v n] show ?thesis by simp
qed

lemma round_half_even_error: "\<bar>real_of_int (round_half_even y) - y\<bar> \<le> 1 / 2"
  unfolding round_half_even_def Let_def by (auto simp: abs_le_iff)

lemma powi_nat: "0 \<le> k \<Longrightarrow> (2::real) powi k = 2 ^ nat k"
  by (simp add: power_int_def)

lemma powi_neg_nat: "0 \<le> k \<Longrightarrow> (2::real) powi (- k) = 1 / 2 ^ nat k"
  by (simp add: power_int_minus_divide powi_nat)

lemma int_pow2_le: "(2::int) ^ m \<le> n \<Longrightarrow> (2::real) ^ m \<le> real_of_int n"
  using of_int_le_iff [of "2 ^ m" n, where ?'a = real] by simp

lemma int_lt_pow2: "n < (2::int) ^ m \<Longrightarrow> real_of_int n + 1 \<le> (2::real) ^ m"
proof -
  assume "n < (2::int) ^ m"
  then have "n + 1 \<le> 2 ^ m" by simp
  then show ?thesis
    using of_int_le_iff [of "n + 1" "2 ^ m", where ?'a = real] by simp
qed

lemma binade_big:
  assumes "1 \<le> \<bar>x\<bar>"
  shows "2 powi binade x \<le> \<bar>x\<bar> \<and> \<bar>x\<bar> < 2 powi (binade x + 1)"
proof -
  define n where "n = \<lfloor>\<bar>x\<bar>\<rfloor>"
  have n: "0 < n" "real_of_int n \<le> \<bar>x\<bar>" "\<bar>x\<bar> < real_of_int n + 1"
    using assms unfolding n_def by linarith+
  have e: "binade x = bitlen n - 1" using assms by (simp add: binade_def n_def)
  have b1: "0 \<le> bitlen n - 1" "0 \<le> bitlen n" using n(1) by (simp_all add: bitlen_alt_def)
  from bitlen_bounds [OF n(1)] have bb: "2 ^ nat (bitlen n - 1) \<le> n" "n < 2 ^ nat (bitlen n)" by simp_all
  have lo: "(2::real) ^ nat (bitlen n - 1) \<le> \<bar>x\<bar>"
    using int_pow2_le [OF bb(1)] n(2) by linarith
  have hi: "\<bar>x\<bar> < (2::real) ^ nat (bitlen n)"
    using int_lt_pow2 [OF bb(2)] n(3) by linarith
  have "binade x + 1 = bitlen n" by (simp add: e)
  then show ?thesis
    unfolding e using lo hi by (simp add: powi_nat [OF b1(1)] powi_nat [OF b1(2)])
qed

lemma binade_small:
  assumes "x \<noteq> 0" "\<not> 1 \<le> \<bar>x\<bar>"
  shows "2 powi binade x \<le> \<bar>x\<bar> \<and> \<bar>x\<bar> < 2 powi (binade x + 1)"
proof -
  define y where "y = 1 / \<bar>x\<bar>"
  have y1: "1 < y" using assms by (simp add: y_def)
  define M where "M = \<lceil>y\<rceil> - 1"
  have M: "0 < M" "real_of_int M < y" "y \<le> real_of_int M + 1"
    using y1 unfolding M_def by linarith+
  have e: "binade x = - bitlen M" using assms(2) by (simp add: binade_def M_def y_def)
  have b1: "0 \<le> bitlen M - 1" "0 \<le> bitlen M" using M(1) by (simp_all add: bitlen_alt_def)
  from bitlen_bounds [OF M(1)] have bb: "2 ^ nat (bitlen M - 1) \<le> M" "M < 2 ^ nat (bitlen M)" by simp_all
  have yhi: "y \<le> (2::real) ^ nat (bitlen M)"
    using int_lt_pow2 [OF bb(2)] M(3) by linarith
  have ylo: "(2::real) ^ nat (bitlen M - 1) < y"
    using int_pow2_le [OF bb(1)] M(2) by linarith
  have x_eq: "\<bar>x\<bar> = 1 / y" by (simp add: y_def)
  have lo: "1 / (2::real) ^ nat (bitlen M) \<le> \<bar>x\<bar>"
    unfolding x_eq using yhi y1 by (simp add: frac_le)
  have hi: "\<bar>x\<bar> < 1 / (2::real) ^ nat (bitlen M - 1)"
    unfolding x_eq using ylo by (simp add: frac_less2)
  have e1: "binade x + 1 = - (bitlen M - 1)" by (simp add: e)
  show ?thesis
    unfolding e1 unfolding e powi_neg_nat [OF b1(1)] powi_neg_nat [OF b1(2)]
    using lo hi by simp
qed

lemma binade_bounds:
  assumes "x \<noteq> 0"
  shows "2 powi binade x \<le> \<bar>x\<bar>" "\<bar>x\<bar> < 2 powi (binade x + 1)"
  using binade_big [of x] binade_small [OF assms] by blast+

lemma fl_error: "\<bar>fl x - x\<bar> \<le> \<bar>x\<bar> / 2 ^ 53"
proof (cases "x = 0")
  case True
  then show ?thesis by (simp add: fl_def)
next
  case False
  define q where "q = (2::real) powi (binade x - 52)"
  have qpos: "0 < q" by (simp add: q_def)
  have "fl x - x = (real_of_int (round_half_even (x / q)) - x / q) * q"
    using False qpos by (simp add: fl_def q_def field_simps)
  then have "\<bar>fl x - x\<bar> = \<bar>real_of_int (round_half_even (x / q)) - x / q\<bar> * q"
    using qpos by (simp add: abs_mult)
  also have "\<dots> \<le> (1 / 2) * q"
    using round_half_even_error [of "x / q"] qpos by (intro mult_right_mono) auto
  also have "(1 / 2) * q = 2 powi binade x / 2 ^ 53"
  proof -
    have "q = 2 powi binade x / 2 powi 52"
      unfolding q_def by (rule power_int_diff) simp
    then show ?thesis by simp
  qed
  also have "\<dots> \<le> \<bar>x\<bar> / 2 ^ 53"
    using binade_bounds(1) [OF False] by (simp add: divide_right_mono)
  finally show ?thesis .
qed


lemma alpha64_value: "ALPHA64 = 3422735716801577 / 9007199254740992"
  by code_simp

lemma beta64_value: "fl (1 - ALPHA64) = 5584463537939415 / 9007199254740992"
  by code_simp

lemma f64_fixed_point_error:
  "\<bar>fl (fl (v * fl (1 - ALPHA64)) + fl (v * ALPHA64)) - v\<bar> \<le> 3 * \<bar>v\<bar> / 2 ^ 53"
proof -
  define a where "a = ALPHA64"
  define b where "b = fl (1 - ALPHA64)"
  define u where "u = (1::real) / 2 ^ 53"
  have bv: "b = 5584463537939415 / 9007199254740992"
    unfolding b_def by (rule beta64_value)
  have av: "a = 3422735716801577 / 9007199254740992"
    unfolding a_def by (rule alpha64_value)
  have ab: "a + b = 1" "0 < a" "0 < b"
    unfolding av bv by simp_all
  have u: "0 < u" "u \<le> 1" by (simp_all add: u_def)
  define A where "A = fl (v * b)"
  define B where "B = fl (v * a)"
  have eA: "\<bar>A - v * b\<bar> \<le> \<bar>v\<bar> * b * u"
    using fl_error [of "v * b"] ab(3) by (simp add: A_def u_def abs_mult)
  have eB: "\<bar>B - v * a\<bar> \<le> \<bar>v\<bar> * a * u"
    using fl_error [of "v * a"] ab(2) by (simp add: B_def u_def abs_mult)
  have "v * (a + b) = v" using ab(1) by simp
  then have vab: "v * a + v * b = v" by (simp add: distrib_left)
  have "\<bar>A + B - v\<bar> = \<bar>(A - v * b) + (B - v * a)\<bar>"
    using vab by (simp add: algebra_simps)
  also have "\<dots> \<le> \<bar>A - v * b\<bar> + \<bar>B - v * a\<bar>" by (rule abs_triangle_ineq)
  also have "\<dots> \<le> \<bar>v\<bar> * b * u + \<bar>v\<bar> * a * u" using eA eB by (rule add_mono)
  also have "\<dots> = (\<bar>v\<bar> * u) * (a + b)" by (simp add: algebra_simps)
  also have "\<dots> = \<bar>v\<bar> * u" unfolding ab(1) by simp
  finally have eS: "\<bar>A + B - v\<bar> \<le> \<bar>v\<bar> * u" .
  have "\<bar>A + B\<bar> = \<bar>(A + B - v) + v\<bar>" by simp
  also have "\<dots> \<le> \<bar>A + B - v\<bar> + \<bar>v\<bar>" by (rule abs_triangle_ineq)
  finally have S: "\<bar>A + B\<bar> \<le> \<bar>v\<bar> * u + \<bar>v\<bar>" using eS by simp
  have vu: "\<bar>v\<bar> * u \<le> \<bar>v\<bar> * 1" using u(2) by (intro mult_left_mono) auto
  have S2: "\<bar>A + B\<bar> \<le> 2 * \<bar>v\<bar>" using S vu by simp
  have "\<bar>fl (A + B) - (A + B)\<bar> \<le> \<bar>A + B\<bar> * u"
    using fl_error [of "A + B"] by (simp add: u_def)
  also have "\<dots> \<le> (2 * \<bar>v\<bar>) * u"
    using S2 u(1) by (intro mult_right_mono) auto
  finally have eR: "\<bar>fl (A + B) - (A + B)\<bar> \<le> 2 * \<bar>v\<bar> * u" by simp
  have "\<bar>fl (A + B) - v\<bar> = \<bar>(fl (A + B) - (A + B)) + (A + B - v)\<bar>" by simp
  also have "\<dots> \<le> \<bar>fl (A + B) - (A + B)\<bar> + \<bar>A + B - v\<bar>" by (rule abs_triangle_ineq)
  also have "\<dots> \<le> 2 * \<bar>v\<bar> * u + \<bar>v\<bar> * u" using eR eS by (rule add_mono)
  finally have "\<bar>fl (A + B) - v\<bar> \<le> 2 * \<bar>v\<bar> * u + \<bar>v\<bar> * u" .
  then have "\<bar>fl (A + B) - v\<bar> \<le> 3 * \<bar>v\<bar> * u" by (simp add: algebra_simps)
  then show ?thesis
    unfolding A_def B_def a_def b_def u_def by simp
qed


lemma v236_is_double: "fl (1920 * fl (123 / 1000)) = v236"
  by code_simp

lemma f64_step: "fl (fl (v236 * fl (1 - ALPHA64)) + fl (v236 * ALPHA64)) = 2077285328124641 / 8796093022208"
  by code_simp

lemma f64_seed: "smoothVal_f64 Map.empty k v = (v, [k \<mapsto> Num v])"
  by (simp add: smoothVal_f64_def)

lemma f64_blend:
  "s k = Some (Num p) \<Longrightarrow>
     fst (smoothVal_f64 s k v) = fl (fl (p * fl (1 - ALPHA64)) + fl (v * ALPHA64))"
  by (simp add: smoothVal_f64_def Let_def)

text \<open>
  C4, as stated, fails on the last point: in double arithmetic a stored value need not be
  returned exactly. With the overlay 1920 wide and a normalised coordinate 0.123, the raw
  value is the double 236.16; the first call stores it, and the second call, with the
  same input, returns the next double below it, 236.15999999999997.
\<close>

theorem double_rounding_moves_fixed_point:
  "fl (1920 * fl (123 / 1000)) = v236
   \<and> fst (smoothVal_f64 Map.empty ''bx'' v236) = v236
   \<and> snd (smoothVal_f64 Map.empty ''bx'' v236) ''bx'' = Some (Num v236)
   \<and> fst (smoothVal_f64 (snd (smoothVal_f64 Map.empty ''bx'' v236)) ''bx'' v236)
        = 2077285328124641 / 8796093022208
   \<and> fst (smoothVal_f64 (snd (smoothVal_f64 Map.empty ''bx'' v236)) ''bx'' v236) \<noteq> v236"
proof -
  have ne: "(2077285328124641 / 8796093022208 :: real) \<noteq> v236"
    unfolding v236_def by simp
  show ?thesis
    unfolding f64_seed snd_conv fst_conv
    using v236_is_double ne f64_blend [of "[''bx'' \<mapsto> Num v236]" "''bx''" v236 v236]
    by (simp add: f64_step)
qed

text \<open>
  C4, amended. In exact arithmetic, for every smoothing factor in (0, 1), every key,
  every stored value and every constant input \<open>v\<close>: the error after \<open>n\<close> calls is
  \<open>(1 - \<alpha>)^n\<close> times the initial error, so its absolute value shrinks by the factor
  \<open>1 - \<alpha>\<close> at each call and never grows, the returned values converge to \<open>v\<close>, and \<open>v\<close> is a
  fixed point. In the double arithmetic of the source (\<open>\<alpha> = 0.38\<close>), a stored \<open>v\<close> is
  returned up to a relative error of \<open>3 * 2^-53\<close>.
\<close>

theorem ema_converges_to_constant:
  assumes "0 < a" and "a < 1" and "s k = Some (Num p)"
  shows "stored (repeat_update a k v n s) k - v = (1 - a) ^ n * (p - v)
    \<and> fst (smoothVal_at a (repeat_update a k v n s) k v) = stored (repeat_update a k v (Suc n) s) k
    \<and> \<bar>stored (repeat_update a k v (Suc n) s) k - v\<bar> = (1 - a) * \<bar>stored (repeat_update a k v n s) k - v\<bar>
    \<and> \<bar>stored (repeat_update a k v (Suc n) s) k - v\<bar> \<le> \<bar>stored (repeat_update a k v n s) k - v\<bar>
    \<and> (\<lambda>m. stored (repeat_update a k v m s) k) \<longlonglongrightarrow> v
    \<and> (p = v \<longrightarrow> fst (smoothVal_at a s k v) = v)
    \<and> (p = v \<longrightarrow> \<bar>fst (smoothVal_f64 s k v) - v\<bar> \<le> 3 * \<bar>v\<bar> / 2 ^ 53)"
proof -
  have st: "stored (repeat_update a k v m s) k = v + (1 - a) ^ m * (p - v)" for m
    using stored_repeat_update [of s k p a v m] assms(3) by simp
  have c1: "stored (repeat_update a k v n s) k - v = (1 - a) ^ n * (p - v)"
    unfolding st by simp
  have c2: "fst (smoothVal_at a (repeat_update a k v n s) k v) = stored (repeat_update a k v (Suc n) s) k"
  proof -
    have "fst (smoothVal_at a (repeat_update a k v n s) k v)
        = (v + (1 - a) ^ n * (p - v)) * (1 - a) + v * a"
      using repeat_update_Num [of s k p a v n] assms(3)
        smoothVal_at_blend [of "repeat_update a k v n s" k "v + (1 - a) ^ n * (p - v)" a v]
      by simp
    also have "\<dots> = v + (1 - a) ^ Suc n * (p - v)"
      by (simp add: algebra_simps)
    finally show ?thesis
      by (simp only: st)
  qed
  have c3: "\<bar>stored (repeat_update a k v (Suc n) s) k - v\<bar> = (1 - a) * \<bar>stored (repeat_update a k v n s) k - v\<bar>"
    unfolding st using assms(1,2) by (simp add: abs_mult)
  have "(1 - a) * \<bar>stored (repeat_update a k v n s) k - v\<bar> \<le> 1 * \<bar>stored (repeat_update a k v n s) k - v\<bar>"
    using assms(1) by (intro mult_right_mono) auto
  then have c4: "\<bar>stored (repeat_update a k v (Suc n) s) k - v\<bar> \<le> \<bar>stored (repeat_update a k v n s) k - v\<bar>"
    using c3 by simp
  have lim0: "(\<lambda>m. (1 - a) ^ m) \<longlonglongrightarrow> 0"
    using assms(1,2) by (intro LIMSEQ_realpow_zero) auto
  have "(\<lambda>m. v + (1 - a) ^ m * (p - v)) \<longlonglongrightarrow> v + 0 * (p - v)"
    by (intro tendsto_add tendsto_mult tendsto_const lim0)
  then have c5: "(\<lambda>m. stored (repeat_update a k v m s) k) \<longlonglongrightarrow> v"
    unfolding st by simp
  have c6: "p = v \<longrightarrow> fst (smoothVal_at a s k v) = v"
    using assms(3) by (simp add: smoothVal_at_def Let_def algebra_simps)
  have c7: "p = v \<longrightarrow> \<bar>fst (smoothVal_f64 s k v) - v\<bar> \<le> 3 * \<bar>v\<bar> / 2 ^ 53"
    using f64_blend [of s k p v] assms(3) f64_fixed_point_error [of v] by simp
  show ?thesis using c1 c2 c3 c4 c5 c6 c7 by blast
qed

theorem ema_converges_to_constant_witness:
  "stored (repeat_update (38 / 100) ''bx'' 200 1 [''bx'' \<mapsto> Num 100]) ''bx'' = 138
   \<and> \<bar>stored (repeat_update (38 / 100) ''bx'' 200 1 [''bx'' \<mapsto> Num 100]) ''bx'' - 200\<bar> = 62
   \<and> fst (smoothVal_at (38 / 100) [''bx'' \<mapsto> Num 200] ''bx'' 200) = 200
   \<and> \<bar>fst (smoothVal_f64 [''bx'' \<mapsto> Num 200] ''bx'' 200) - 200\<bar> \<le> 3 * 200 / 2 ^ 53"
proof -
  have h: "(0::real) < 38 / 100" "(38 / 100 :: real) < 1"
    "[''bx'' \<mapsto> Num 100] ''bx'' = Some (Num 100)" "[''bx'' \<mapsto> Num 200] ''bx'' = Some (Num 200)"
    by simp_all
  show ?thesis
    using
      ema_converges_to_constant [where a = "38 / 100" and s = "[''bx'' \<mapsto> Num 100]"
        and k = "''bx''" and p = 100 and v = 200 and n = 1]
      ema_converges_to_constant [where a = "38 / 100" and s = "[''bx'' \<mapsto> Num 200]"
        and k = "''bx''" and p = 200 and v = 200 and n = 0]
      h
    by simp
qed

section \<open>Landmark geometry resolver: properties\<close>

lemma smoothVal_snd: "snd (smoothVal s k v) = s(k \<mapsto> Num (fst (smoothVal s k v)))"
  by (simp add: smoothVal_def smoothVal_at_def Let_def)

lemma smoothVal_fst_other: "k' \<noteq> k \<Longrightarrow> fst (smoothVal (s(k' \<mapsto> x)) k v) = fst (smoothVal s k v)"
  by (simp add: smoothVal_def smoothVal_at_def Let_def)


lemma smooth_frame_fields:
  "p_bx (fst (smooth_frame W H r s)) = fst (smoothVal s ''bx'' (rBx r))"
  "p_by (fst (smooth_frame W H r s)) = fst (smoothVal s ''by'' (rBy r))"
  "p_bw (fst (smooth_frame W H r s)) = fst (smoothVal s ''bw'' (rBw r))"
  "p_bh (fst (smooth_frame W H r s)) = fst (smoothVal s ''bh'' (rBh r))"
  "p_rex (fst (smooth_frame W H r s)) = fst (smoothVal s ''rex'' (rRex r))"
  "p_rey (fst (smooth_frame W H r s)) = fst (smoothVal s ''rey'' (rRey r))"
  "p_lex (fst (smooth_frame W H r s)) = fst (smoothVal s ''lex'' (rLex r))"
  "p_ley (fst (smooth_frame W H r s)) = fst (smoothVal s ''ley'' (rLey r))"
  "p_nx (fst (smooth_frame W H r s)) = fst (smoothVal s ''nx'' (rNx r))"
  "p_ny (fst (smooth_frame W H r s)) = fst (smoothVal s ''ny'' (rNy r))"
  "p_mx (fst (smooth_frame W H r s)) = fst (smoothVal s ''mx'' (rMx r))"
  "p_my (fst (smooth_frame W H r s)) = fst (smoothVal s ''my'' (rMy r))"
  by (simp_all add: smooth_frame_def split_beta Let_def smoothVal_snd smoothVal_fst_other)

text \<open>After one face has been processed, each of the twelve keys holds that face's value.\<close>

lemma smooth_frame_store:
  "snd (smooth_frame W H r s) =
     s(''bx'' \<mapsto> Num (p_bx (fst (smooth_frame W H r s))),
       ''by'' \<mapsto> Num (p_by (fst (smooth_frame W H r s))),
       ''bw'' \<mapsto> Num (p_bw (fst (smooth_frame W H r s))),
       ''bh'' \<mapsto> Num (p_bh (fst (smooth_frame W H r s))),
       ''rex'' \<mapsto> Num (p_rex (fst (smooth_frame W H r s))),
       ''rey'' \<mapsto> Num (p_rey (fst (smooth_frame W H r s))),
       ''lex'' \<mapsto> Num (p_lex (fst (smooth_frame W H r s))),
       ''ley'' \<mapsto> Num (p_ley (fst (smooth_frame W H r s))),
       ''nx'' \<mapsto> Num (p_nx (fst (smooth_frame W H r s))),
       ''ny'' \<mapsto> Num (p_ny (fst (smooth_frame W H r s))),
       ''mx'' \<mapsto> Num (p_mx (fst (smooth_frame W H r s))),
       ''my'' \<mapsto> Num (p_my (fst (smooth_frame W H r s))))"
  unfolding smooth_frame_fields
  by (simp add: smooth_frame_def split_beta Let_def smoothVal_snd smoothVal_fst_other)


lemma draw_detection_pair:
  "draw_detection W H fp i d (cv, s) =
     (cv\<lparr>ov_ops := ov_ops cv @ [Decoration fp i (fst (face_frame W H d s))]\<rparr>,
      snd (face_frame W H d s))"
  by (simp add: draw_detection_def split_beta)

lemma fold_draw_detection:
  "fst (fold (draw_detection W H fp i) ds (cv, s)) =
     cv\<lparr>ov_ops := ov_ops cv @ map (Decoration fp i) (frames_of W H ds s)\<rparr>"
proof (induction ds arbitrary: cv s)
  case Nil
  show ?case by simp
next
  case (Cons d ds)
  show ?case
    by (simp add: draw_detection_pair Cons.IH)
qed


lemma onFaceResults_faces:
  assumes "faceCanvas st = Some cv" "faceCtx st" "currentDecorationId st \<noteq> ''none''" "ds \<noteq> []"
  shows "faceCanvas (onFaceResults (Some ds) st) =
     Some (cv\<lparr>ov_ops := map (Decoration (currentFacingMode st = ''user'') (currentDecorationId st))
                 (frames_of (real (ov_width cv)) (real (ov_height cv)) ds (store st))\<rparr>)"
proof -
  obtain d ds' where ds: "ds = d # ds'" using assms(4) by (cases ds) auto
  show ?thesis
    using assms(1-3) unfolding ds
    by (simp add: onFaceResults_def Let_def split_beta fold_draw_detection draw_detection_pair
        clearRect_all_def)
qed



lemma onFaceResults_zero:
  assumes "faceCanvas st = Some cv" "faceCtx st" "ds = None \<or> ds = Some []"
  shows "onFaceResults ds st =
     st\<lparr>store := resetSmoothing (store st), faceCanvas := Some (clearRect_all cv)\<rparr>"
  using assms by (auto simp: onFaceResults_def Let_def)

lemma cycles_append: "cycles (rs @ [r]) st = onFaceResults r (cycles rs st)"
  by (induction rs arbitrary: st) auto

text \<open>
  C9. While the overlay exists, a detection cycle with zero detections clears the overlay
  (nothing drawn remains: it is fully transparent) and leaves every key of the smoothing
  store uninitialised; so does every non-empty run of such cycles, five for instance,
  whatever was drawn or stored before.
\<close>

theorem zero_detections_clear_overlay:
  assumes "faceCanvas st = Some cv" and "faceCtx st"
    and "\<forall>r\<in>set rs. r = None \<or> r = Some []" and "rs \<noteq> []"
  shows "faceCtx (cycles rs st)
    \<and> faceCanvas (cycles rs st) = Some (clearRect_all cv)
    \<and> transparent (clearRect_all cv)
    \<and> (\<forall>k. uninitialized (store (cycles rs st)) k)"
  using assms(3,4)
proof (induction rs rule: rev_induct)
  case Nil
  then show ?case by simp
next
  case (snoc r rs)
  have r: "r = None \<or> r = Some []" using snoc.prems by simp
  show ?case
  proof (cases "rs = []")
    case True
    show ?thesis
      unfolding True using onFaceResults_zero [OF assms(1,2) r] assms(2)
      by (simp add: uninitialized_resetSmoothing transparent_def clearRect_all_def)
  next
    case False
    have ih: "faceCtx (cycles rs st)" "faceCanvas (cycles rs st) = Some (clearRect_all cv)"
      using snoc.IH False snoc.prems by auto
    show ?thesis
      unfolding cycles_append using onFaceResults_zero [OF ih(2) ih(1) r] ih(1)
      by (simp add: uninitialized_resetSmoothing clearRect_all_def transparent_def)
  qed
qed

lemma tracked_canvas:
  "faceCanvas (onFaceResults (Some [face_A]) tracking_start) =
     Some (blank_overlay\<lparr>ov_ops := [Decoration True ''crown'' (fst (face_frame 640 480 face_A Map.empty))]\<rparr>)"
  using onFaceResults_faces [of tracking_start blank_overlay "[face_A]"]
  by (simp add: tracking_start_def blank_overlay_def)

lemma tracked_ctx: "faceCtx (onFaceResults (Some [face_A]) tracking_start)"
  by (simp add: onFaceResults_def tracking_start_def Let_def split_beta)

lemma tracked_store: "store (onFaceResults (Some [face_A]) tracking_start) ''bx'' = Some (Num 160)"
  by (simp add: onFaceResults_def tracking_start_def Let_def split_beta draw_detection_pair
      face_frame_def smooth_frame_store smooth_frame_fields raw_of_def face_A_def blank_overlay_def
      clearRect_all_def smoothVal_def smoothVal_at_def)

theorem zero_detections_clear_overlay_witness:
  "faceCanvas (onFaceResults (Some [face_A]) tracking_start) =
     Some (blank_overlay\<lparr>ov_ops := [Decoration True ''crown'' (fst (face_frame 640 480 face_A Map.empty))]\<rparr>)
   \<and> \<not> transparent (blank_overlay\<lparr>ov_ops := [Decoration True ''crown'' (fst (face_frame 640 480 face_A Map.empty))]\<rparr>)
   \<and> \<not> uninitialized (store (onFaceResults (Some [face_A]) tracking_start)) ''bx''
   \<and> faceCanvas (cycles zero_run5 (onFaceResults (Some [face_A]) tracking_start)) = Some blank_overlay
   \<and> transparent blank_overlay
   \<and> (\<forall>k. uninitialized (store (cycles zero_run5 (onFaceResults (Some [face_A]) tracking_start))) k)"
  using zero_detections_clear_overlay [OF tracked_canvas tracked_ctx, of zero_run5] tracked_store
  by (simp add: zero_run5_def tracked_canvas transparent_def clearRect_all_def blank_overlay_def
      uninitialized_def)



section \<open>Capture compositor: crop and output size, properties\<close>

lemma js_round_bounds: "real_of_int (js_round x) \<le> x + 1 / 2" "x - 1 / 2 < real_of_int (js_round x)"
  unfolding js_round_def by linarith+

lemma js_round_int: "js_round (real_of_int n) = n"
  unfolding js_round_def by linarith

lemma js_round_le_int: "x \<le> real_of_int n \<Longrightarrow> js_round x \<le> n"
  unfolding js_round_def by linarith

lemma js_round_pos: "1 / 2 \<le> x \<Longrightarrow> 1 \<le> js_round x"
  unfolding js_round_def by linarith

lemma crop_rect_wide:
  assumes "0 < videoW" "0 < videoH" "real videoW / real videoH > 4 / 3"
  shows "crop_rect videoW videoH = (js_round ((real videoW - real_of_int (js_round (real videoH * (4 / 3)))) / 2), 0,
           js_round (real videoH * (4 / 3)), int videoH)"
  using assms by (simp add: crop_rect_def Let_def)

lemma crop_rect_tall:
  assumes "0 < videoW" "0 < videoH" "\<not> real videoW / real videoH > 4 / 3"
  shows "crop_rect videoW videoH = (0, js_round ((real videoH - real_of_int (js_round (real videoW / (4 / 3)))) / 2),
           int videoW, js_round (real videoW / (4 / 3)))"
  using assms by (simp add: crop_rect_def Let_def)

lemma of_int_lt_succ: "real_of_int m < real_of_int n + 1 \<Longrightarrow> m \<le> n"
  by linarith

lemma of_int_gt_pred: "real_of_int n - 1 < real_of_int m \<Longrightarrow> n \<le> m"
  by linarith

lemma half_gap_lower:
  fixes V s d :: real
  shows "(V - s) / 2 - 1 / 2 < d \<Longrightarrow> s \<le> V \<Longrightarrow> - 1 < d"
  by argo

lemma half_gap_upper:
  fixes V s d :: real
  shows "d \<le> (V - s) / 2 + 1 / 2 \<Longrightarrow> s \<le> V \<Longrightarrow> d + s < V + 1"
  by argo

lemma centred_offset:
  assumes "d = js_round ((real_of_int V - real_of_int s) / 2)" "s \<le> V"
  shows "0 \<le> d" "d + s \<le> V"
proof -
  have b: "real_of_int d \<le> (real_of_int V - real_of_int s) / 2 + 1 / 2"
    "(real_of_int V - real_of_int s) / 2 - 1 / 2 < real_of_int d"
    unfolding assms(1) by (rule js_round_bounds)+
  have sV: "real_of_int s \<le> real_of_int V" using assms(2) by simp
  have "- 1 < real_of_int d" using b(2) sV by (rule half_gap_lower)
  then have "real_of_int 0 - 1 < real_of_int d" by simp
  then show "0 \<le> d" by (rule of_int_gt_pred)
  have "real_of_int d + real_of_int s < real_of_int V + 1" using b(1) sV by (rule half_gap_upper)
  then have "real_of_int (d + s) < real_of_int V + 1" by simp
  then show "d + s \<le> V" by (rule of_int_lt_succ)
qed

lemma crop_wide:
  assumes "0 < videoW" "0 < videoH" "real videoW / real videoH > 4 / 3"
    "crop_rect videoW videoH = (sx, sy, sw, sh)"
  shows "0 < sw \<and> 0 < sh \<and> sw \<le> int videoW \<and> sh \<le> int videoH
    \<and> \<bar>3 * sw - 4 * sh\<bar> \<le> 2
    \<and> sx = js_round ((real videoW - real_of_int sw) / 2)
    \<and> sy = js_round ((real videoH - real_of_int sh) / 2)
    \<and> 0 \<le> sx \<and> 0 \<le> sy \<and> sx + sw \<le> int videoW \<and> sy + sh \<le> int videoH
    \<and> sh = int videoH \<and> sy = 0"
proof -
  have w: "real videoH * (4 / 3) < real videoW"
    using assms(2,3) by (simp add: field_simps)
  have eq: "sx = js_round ((real videoW - real_of_int sw) / 2)" "sy = 0"
    "sw = js_round (real videoH * (4 / 3))" "sh = int videoH"
    using crop_rect_wide [OF assms(1-3)] assms(4) by auto
  have b: "real_of_int sw \<le> real videoH * (4 / 3) + 1 / 2" "real videoH * (4 / 3) - 1 / 2 < real_of_int sw"
    unfolding eq(3) by (rule js_round_bounds)+
  have hpos: "1 \<le> real videoH" using assms(2) by simp
  have "real_of_int sw < real videoW + 1" using b(1) w by linarith
  then have "real_of_int sw < real_of_int (int videoW) + 1" by simp
  then have swW: "sw \<le> int videoW" by (rule of_int_lt_succ)
  have "0 < real_of_int sw" using b(2) hpos by linarith
  then have "real_of_int 1 - 1 < real_of_int sw" by simp
  then have swpos: "1 \<le> sw" by (rule of_int_gt_pred)
  have "3 * real_of_int sw - 4 * real videoH < 3" using b(1) by linarith
  then have "real_of_int (3 * sw - 4 * int videoH) < real_of_int 2 + 1" by simp
  then have r1: "3 * sw - 4 * int videoH \<le> 2" by (rule of_int_lt_succ)
  have "- 3 < 3 * real_of_int sw - 4 * real videoH" using b(2) by linarith
  then have "real_of_int (- 2) - 1 < real_of_int (3 * sw - 4 * int videoH)" by simp
  then have r2: "- 2 \<le> 3 * sw - 4 * int videoH" by (rule of_int_gt_pred)
  have r: "\<bar>3 * sw - 4 * sh\<bar> \<le> 2" unfolding eq(4) using r1 r2 by linarith
  have c: "0 \<le> sx" "sx + sw \<le> int videoW"
    using centred_offset [of sx "int videoW" sw] eq(1) swW by simp_all
  have cy: "sy = js_round ((real videoH - real_of_int sh) / 2)"
    unfolding eq(2,4) by (simp add: js_round_def)
  have p: "0 < sw" "0 < sh" "sh \<le> int videoH" "0 \<le> sy" "sy + sh \<le> int videoH"
    using swpos assms(2) eq(2,4) by simp_all
  show ?thesis
    using p swW r eq(1) cy c eq(4) eq(2) by blast
qed

lemma crop_tall:
  assumes "0 < videoW" "0 < videoH" "\<not> real videoW / real videoH > 4 / 3"
    "crop_rect videoW videoH = (sx, sy, sw, sh)"
  shows "0 < sw \<and> 0 < sh \<and> sw \<le> int videoW \<and> sh \<le> int videoH
    \<and> \<bar>3 * sw - 4 * sh\<bar> \<le> 2
    \<and> sx = js_round ((real videoW - real_of_int sw) / 2)
    \<and> sy = js_round ((real videoH - real_of_int sh) / 2)
    \<and> 0 \<le> sx \<and> 0 \<le> sy \<and> sx + sw \<le> int videoW \<and> sy + sh \<le> int videoH
    \<and> sw = int videoW \<and> sx = 0"
proof -
  have w: "real videoW * (3 / 4) \<le> real videoH"
    using assms(2,3) by (simp add: field_simps)
  have eq: "sx = 0" "sy = js_round ((real videoH - real_of_int sh) / 2)"
    "sw = int videoW" "sh = js_round (real videoW / (4 / 3))"
    using crop_rect_tall [OF assms(1-3)] assms(4) by auto
  have b: "real_of_int sh \<le> real videoW * (3 / 4) + 1 / 2" "real videoW * (3 / 4) - 1 / 2 < real_of_int sh"
    using js_round_bounds [of "real videoW / (4 / 3)"] unfolding eq(4) by simp_all
  have wpos: "1 \<le> real videoW" using assms(1) by simp
  have "real_of_int sh < real videoH + 1" using b(1) w by linarith
  then have "real_of_int sh < real_of_int (int videoH) + 1" by simp
  then have shH: "sh \<le> int videoH" by (rule of_int_lt_succ)
  have "0 < real_of_int sh" using b(2) wpos by linarith
  then have "real_of_int 1 - 1 < real_of_int sh" by simp
  then have shpos: "1 \<le> sh" by (rule of_int_gt_pred)
  have "4 * real_of_int sh - 3 * real videoW < 3" using b(1) by linarith
  then have "real_of_int (4 * sh - 3 * int videoW) < real_of_int 2 + 1" by simp
  then have r1: "4 * sh - 3 * int videoW \<le> 2" by (rule of_int_lt_succ)
  have "- 3 < 4 * real_of_int sh - 3 * real videoW" using b(2) by linarith
  then have "real_of_int (- 2) - 1 < real_of_int (4 * sh - 3 * int videoW)" by simp
  then have r2: "- 2 \<le> 4 * sh - 3 * int videoW" by (rule of_int_gt_pred)
  have r: "\<bar>3 * sw - 4 * sh\<bar> \<le> 2" unfolding eq(3) using r1 r2 by linarith
  have c: "0 \<le> sy" "sy + sh \<le> int videoH"
    using centred_offset [of sy "int videoH" sh] eq(2) shH by simp_all
  have cx: "sx = js_round ((real videoW - real_of_int sw) / 2)"
    unfolding eq(1,3) by (simp add: js_round_def)
  have p: "0 < sw" "0 < sh" "sw \<le> int videoW" "0 \<le> sx" "sx + sw \<le> int videoW"
    using shpos assms(1) eq(1,3) by simp_all
  show ?thesis
    using p shH r cx eq(2) c eq(3) eq(1) by blast
qed

lemma out_props:
  assumes "0 < sw" "0 < sh"
  shows "js_round (real_of_int sw * out_scale sw sh) \<le> 1920"
    "js_round (real_of_int sw * out_scale sw sh) \<le> sw"
    "js_round (real_of_int sh * out_scale sw sh) \<le> 1920"
    "js_round (real_of_int sh * out_scale sw sh) \<le> sh"
    "sw \<le> 1920 \<Longrightarrow> sh \<le> 1920 \<Longrightarrow> out_scale sw sh = 1"
proof -
  have s1: "out_scale sw sh \<le> 1" "out_scale sw sh \<le> 1920 / real_of_int sw"
    "out_scale sw sh \<le> 1920 / real_of_int sh" "0 < out_scale sw sh"
    using assms by (simp_all add: out_scale_def)
  have a: "real_of_int sw * out_scale sw sh \<le> real_of_int sw * (1920 / real_of_int sw)"
    using s1(2) assms(1) by (intro mult_left_mono) auto
  then have a': "real_of_int sw * out_scale sw sh \<le> 1920" using assms(1) by simp
  have b: "real_of_int sh * out_scale sw sh \<le> real_of_int sh * (1920 / real_of_int sh)"
    using s1(3) assms(2) by (intro mult_left_mono) auto
  then have b': "real_of_int sh * out_scale sw sh \<le> 1920" using assms(2) by simp
  have c: "real_of_int sw * out_scale sw sh \<le> real_of_int sw * 1"
    using s1(1) assms(1) by (intro mult_left_mono) auto
  have d: "real_of_int sh * out_scale sw sh \<le> real_of_int sh * 1"
    using s1(1) assms(2) by (intro mult_left_mono) auto
  show "js_round (real_of_int sw * out_scale sw sh) \<le> 1920"
    using js_round_le_int [of _ 1920] a' by simp
  show "js_round (real_of_int sw * out_scale sw sh) \<le> sw"
    using js_round_le_int [of _ sw] c by simp
  show "js_round (real_of_int sh * out_scale sw sh) \<le> 1920"
    using js_round_le_int [of _ 1920] b' by simp
  show "js_round (real_of_int sh * out_scale sw sh) \<le> sh"
    using js_round_le_int [of _ sh] d by simp
  show "sw \<le> 1920 \<Longrightarrow> sh \<le> 1920 \<Longrightarrow> out_scale sw sh = 1"
    using assms by (simp add: out_scale_def min_def field_simps)
qed

lemma crop_1920_1080:
  "crop_and_scale 1920 1080 =
     \<lparr> srcX = 240, srcY = 0, srcW = 1440, srcH = 1080, outW = 1440, outH = 1080 \<rparr>"
  by (simp add: crop_and_scale_def crop_rect_def out_scale_def js_round_def Let_def)

text \<open>
  C2. For a source frame with non-zero dimensions the crop rectangle is non-empty, lies
  inside the frame, is centred (each offset is half the slack, rounded), spans the whole
  frame in one dimension and clips only the other, and has the ratio 4:3 up to the
  rounding of the clipped side (\<open>|3 * srcW - 4 * srcH| \<le> 2\<close>). The output size is the crop
  scaled by \<open>min(1920 / srcW, 1920 / srcH, 1)\<close> and rounded: neither side exceeds 1920, and
  neither exceeds the crop's (no upscaling). A 1920 x 1080 source gives 1440 x 1080.
\<close>

theorem crop_then_scale:
  assumes "0 < videoW" and "0 < videoH" and "g = crop_and_scale videoW videoH"
  shows "0 < srcW g \<and> 0 < srcH g \<and> srcW g \<le> int videoW \<and> srcH g \<le> int videoH
    \<and> \<bar>3 * srcW g - 4 * srcH g\<bar> \<le> 2
    \<and> srcX g = js_round ((real videoW - real_of_int (srcW g)) / 2)
    \<and> srcY g = js_round ((real videoH - real_of_int (srcH g)) / 2)
    \<and> 0 \<le> srcX g \<and> 0 \<le> srcY g
    \<and> srcX g + srcW g \<le> int videoW \<and> srcY g + srcH g \<le> int videoH
    \<and> (if 4 / 3 < real videoW / real videoH then srcH g = int videoH \<and> srcY g = 0
        else srcW g = int videoW \<and> srcX g = 0)
    \<and> outW g = js_round (real_of_int (srcW g)
          * min (min (1920 / real_of_int (srcW g)) (1920 / real_of_int (srcH g))) 1)
    \<and> outH g = js_round (real_of_int (srcH g)
          * min (min (1920 / real_of_int (srcW g)) (1920 / real_of_int (srcH g))) 1)
    \<and> outW g \<le> 1920 \<and> outH g \<le> 1920 \<and> outW g \<le> srcW g \<and> outH g \<le> srcH g
    \<and> (srcW g \<le> 1920 \<and> srcH g \<le> 1920 \<longrightarrow> outW g = srcW g \<and> outH g = srcH g)
    \<and> outW (crop_and_scale 1920 1080) = 1440 \<and> outH (crop_and_scale 1920 1080) = 1080"
proof -
  obtain sx sy sw sh where c: "crop_rect videoW videoH = (sx, sy, sw, sh)"
    by (cases "crop_rect videoW videoH") auto
  have g: "srcX g = sx" "srcY g = sy" "srcW g = sw" "srcH g = sh"
    "outW g = js_round (real_of_int sw * out_scale sw sh)"
    "outH g = js_round (real_of_int sh * out_scale sw sh)"
    unfolding assms(3) by (simp_all add: crop_and_scale_def c Let_def)
  have r: "0 < sw \<and> 0 < sh \<and> sw \<le> int videoW \<and> sh \<le> int videoH
    \<and> \<bar>3 * sw - 4 * sh\<bar> \<le> 2
    \<and> sx = js_round ((real videoW - real_of_int sw) / 2)
    \<and> sy = js_round ((real videoH - real_of_int sh) / 2)
    \<and> 0 \<le> sx \<and> 0 \<le> sy \<and> sx + sw \<le> int videoW \<and> sy + sh \<le> int videoH
    \<and> (if 4 / 3 < real videoW / real videoH then sh = int videoH \<and> sy = 0
        else sw = int videoW \<and> sx = 0)"
  proof (cases "4 / 3 < real videoW / real videoH")
    case True
    show ?thesis
      unfolding if_P [OF True] using crop_wide [OF assms(1,2) True c] by blast
  next
    case False
    show ?thesis
      unfolding if_not_P [OF False] using crop_tall [OF assms(1,2) False c] by blast
  qed
  then have pos: "0 < sw" "0 < sh" by simp_all
  note o = out_props [OF pos]
  have same: "sw \<le> 1920 \<and> sh \<le> 1920 \<longrightarrow>
      js_round (real_of_int sw * out_scale sw sh) = sw \<and> js_round (real_of_int sh * out_scale sw sh) = sh"
    using o(5) by (auto simp: js_round_int)
  have ex: "outW (crop_and_scale 1920 1080) = 1440 \<and> outH (crop_and_scale 1920 1080) = 1080"
    by (simp add: crop_1920_1080)
  have R: "0 < srcW g \<and> 0 < srcH g \<and> srcW g \<le> int videoW \<and> srcH g \<le> int videoH
    \<and> \<bar>3 * srcW g - 4 * srcH g\<bar> \<le> 2
    \<and> srcX g = js_round ((real videoW - real_of_int (srcW g)) / 2)
    \<and> srcY g = js_round ((real videoH - real_of_int (srcH g)) / 2)
    \<and> 0 \<le> srcX g \<and> 0 \<le> srcY g
    \<and> srcX g + srcW g \<le> int videoW \<and> srcY g + srcH g \<le> int videoH
    \<and> (if 4 / 3 < real videoW / real videoH then srcH g = int videoH \<and> srcY g = 0
        else srcW g = int videoW \<and> srcX g = 0)"
    unfolding g by (rule r)
  have O: "outW g = js_round (real_of_int (srcW g)
          * min (min (1920 / real_of_int (srcW g)) (1920 / real_of_int (srcH g))) 1)
    \<and> outH g = js_round (real_of_int (srcH g)
          * min (min (1920 / real_of_int (srcW g)) (1920 / real_of_int (srcH g))) 1)"
    unfolding g out_scale_def by simp
  have B: "outW g \<le> 1920 \<and> outH g \<le> 1920 \<and> outW g \<le> srcW g \<and> outH g \<le> srcH g"
    unfolding g using o(1-4) by blast
  have S: "srcW g \<le> 1920 \<and> srcH g \<le> 1920 \<longrightarrow> outW g = srcW g \<and> outH g = srcH g"
    unfolding g by (rule same)
  show ?thesis
    using R O B S ex by blast
qed

theorem crop_then_scale_witness:
  "(0::nat) < 1920 \<and> (0::nat) < 1080
   \<and> crop_and_scale 1920 1080 =
        \<lparr> srcX = 240, srcY = 0, srcW = 1440, srcH = 1080, outW = 1440, outH = 1080 \<rparr>
   \<and> \<bar>3 * srcW (crop_and_scale 1920 1080) - 4 * srcH (crop_and_scale 1920 1080)\<bar> \<le> 2
   \<and> srcX (crop_and_scale 1920 1080) + srcW (crop_and_scale 1920 1080) \<le> 1920
   \<and> outW (crop_and_scale 1920 1080) \<le> 1920"
  using crop_then_scale [of 1920 1080 "crop_and_scale 1920 1080"]
  by (simp add: crop_1920_1080)

section \<open>Capture compositor: caption\<close>

lemma panel_drawn_append: "panel_drawn (xs @ ys) \<longleftrightarrow> panel_drawn xs \<or> panel_drawn ys"
  by (auto simp: panel_drawn_def)

lemma draw_lines_no_throw:
  "draw_lines no_throw width boxY bfs lineH i ls cv = Returned (cv @ line_ops width boxY bfs lineH i ls)"
  by (induction ls arbitrary: i cv) (simp_all add: emit_def no_throw_def Let_def)

lemma line_ops_texts: "texts_drawn (line_ops width boxY bfs lineH i ls) = ls"
  by (induction ls arbitrary: i) (simp_all add: texts_drawn_def)

lemma caption_lines_nonempty:
  "caption_lines pd cfg \<noteq> [] \<longleftrightarrow>
     has_field (cfg_text cfg) \<or> has_field (cfg_location cfg)
     \<or> (has_field (cfg_date cfg) \<and> pd (fvalue (cfg_date cfg)) \<noteq> None)"
  by (auto simp: caption_lines_def split: option.splits)

lemma caption_lines_bad_date:
  "pd (fvalue (cfg_date cfg)) = None \<Longrightarrow> caption_lines pd cfg =
     (if has_field (cfg_text cfg) then [TextLine (fvalue (cfg_text cfg))] else [])
     @ (if has_field (cfg_location cfg) then [TextLine (fvalue (cfg_location cfg))] else [])"
  by (simp add: caption_lines_def)

lemma no_date_line:
  "pd (fvalue (cfg_date cfg)) = None \<Longrightarrow> DateLine y m d \<notin> set (caption_lines pd cfg)"
  by (simp add: caption_lines_bad_date)

lemma drawMessage_nothing:
  assumes "\<not> has_field (cfg_date cfg)" "\<not> has_field (cfg_text cfg)" "\<not> has_field (cfg_location cfg)"
  shows "drawMessageOnCanvas thr pd (Some cfg) width height cv = Returned cv"
  using assms by (simp add: drawMessageOnCanvas_def)

lemma drawMessage_no_lines:
  assumes "has_field (cfg_date cfg) \<or> has_field (cfg_text cfg) \<or> has_field (cfg_location cfg)"
    "caption_lines pd cfg = []"
  shows "drawMessageOnCanvas no_throw pd (Some cfg) width height cv = Returned (cv @ [Save, Restore])"
  using assms by (auto simp add: drawMessageOnCanvas_def emit_def no_throw_def Let_def)

lemma drawMessage_lines:
  assumes "caption_lines pd cfg \<noteq> []"
  shows "\<exists>ops. drawMessageOnCanvas no_throw pd (Some cfg) width height cv = Returned (cv @ ops)
      \<and> panel_drawn ops \<and> texts_drawn ops = caption_lines pd cfg"
proof -
  have hf: "\<not> (\<not> has_field (cfg_date cfg) \<and> \<not> has_field (cfg_text cfg) \<and> \<not> has_field (cfg_location cfg))"
    using assms caption_lines_nonempty [of pd cfg] by blast
  have "\<exists>x y w h bY bfs lH.
    drawMessageOnCanvas no_throw pd (Some cfg) width height cv =
       Returned (cv @ ([Save, FillPanel x y w h, StrokePanel]
          @ line_ops width bY bfs lH 0 (caption_lines pd cfg) @ [Restore]))"
    apply (simp only: drawMessageOnCanvas_def option.case hf if_False emit_def no_throw_def
        and_then.simps Let_def assms draw_lines_no_throw append_assoc append.simps)
    apply blast
    done
  then obtain x y w h bY bfs lH where r:
    "drawMessageOnCanvas no_throw pd (Some cfg) width height cv =
       Returned (cv @ ([Save, FillPanel x y w h, StrokePanel]
          @ line_ops width bY bfs lH 0 (caption_lines pd cfg) @ [Restore]))"
    by blast
  have "panel_drawn ([Save, FillPanel x y w h, StrokePanel]
          @ line_ops width bY bfs lH 0 (caption_lines pd cfg) @ [Restore])"
    by (simp add: panel_drawn_def)
  moreover have "texts_drawn ([Save, FillPanel x y w h, StrokePanel]
          @ line_ops width bY bfs lH 0 (caption_lines pd cfg) @ [Restore]) = caption_lines pd cfg"
    using line_ops_texts [of width bY bfs lH 0 "caption_lines pd cfg"]
    by (simp add: texts_drawn_def)
  ultimately show ?thesis using r by blast
qed

lemma layers_ignore_caption:
  "layer1 (env\<lparr>messageConfig := None\<rparr>) g = layer1 env g"
  "layer2 (env\<lparr>messageConfig := None\<rparr>) g cv = layer2 env g cv"
  "layer3 (env\<lparr>messageConfig := None\<rparr>) g cv = layer3 env g cv"
  by (simp_all add: layer1_def layer2_def layer3_def drawFaceFilterOnCanvas_def
      cong: option.case_cong if_cong)

lemma capture_without_caption:
  assumes "messageConfig env = Some cfg"
    "\<not> has_field (cfg_date cfg)" "\<not> has_field (cfg_text cfg)" "\<not> has_field (cfg_location cfg)"
  shows "captureImage env st = captureImage (env\<lparr>messageConfig := None\<rparr>) st"
proof -
  have l4: "layer4 env g cv = Returned cv" "layer4 (env\<lparr>messageConfig := None\<rparr>) g cv = Returned cv"
    for g cv
    using assms by (simp_all add: layer4_def drawMessageOnCanvas_def)
  show ?thesis
    by (simp add: captureImage_def layers_ignore_caption l4 Let_def
        cong: option.case_cong outcome.case_cong if_cong)
qed

text \<open>
  C8. With no drawing call throwing, \<open>drawMessageOnCanvas\<close> returns normally and only adds
  to the canvas. The panel is drawn exactly when the list of caption lines is not empty,
  that is when the text or the location is enabled with a non-empty value, or the date is
  and its value parses; the lines written are exactly \<open>caption_lines\<close>, which holds no date
  line when the date does not parse; when the panel is not drawn, no pixel is touched.
  When the three fields are disabled, the canvas is returned as it is, and the capture is
  the one of the same environment with no message configuration at all.
\<close>

theorem caption_block:
  "(\<exists>ops. drawMessageOnCanvas no_throw pd (Some cfg) width height cv = Returned (cv @ ops)
       \<and> (panel_drawn ops \<longleftrightarrow>
            has_field (cfg_text cfg) \<or> has_field (cfg_location cfg)
            \<or> (has_field (cfg_date cfg) \<and> pd (fvalue (cfg_date cfg)) \<noteq> None))
       \<and> (panel_drawn ops \<longrightarrow>
            has_field (cfg_date cfg) \<or> has_field (cfg_text cfg) \<or> has_field (cfg_location cfg))
       \<and> texts_drawn ops = caption_lines pd cfg
       \<and> (\<not> panel_drawn ops \<longrightarrow> (\<forall>op \<in> set ops. \<not> paints op)))
   \<and> (pd (fvalue (cfg_date cfg)) = None \<longrightarrow>
        (\<forall>y m d. DateLine y m d \<notin> set (caption_lines pd cfg)))
   \<and> (\<not> enabled (cfg_date cfg) \<and> \<not> enabled (cfg_text cfg) \<and> \<not> enabled (cfg_location cfg) \<longrightarrow>
        drawMessageOnCanvas thr pd (Some cfg) width height cv = Returned cv
        \<and> (messageConfig env = Some cfg \<longrightarrow>
             captureImage env st = captureImage (env\<lparr>messageConfig := None\<rparr>) st))"
proof -
  let ?P = "has_field (cfg_text cfg) \<or> has_field (cfg_location cfg)
            \<or> (has_field (cfg_date cfg) \<and> pd (fvalue (cfg_date cfg)) \<noteq> None)"
  let ?any = "has_field (cfg_date cfg) \<or> has_field (cfg_text cfg) \<or> has_field (cfg_location cfg)"
  have A: "\<exists>ops. drawMessageOnCanvas no_throw pd (Some cfg) width height cv = Returned (cv @ ops)
       \<and> (panel_drawn ops \<longleftrightarrow> ?P) \<and> (panel_drawn ops \<longrightarrow> ?any)
       \<and> texts_drawn ops = caption_lines pd cfg
       \<and> (\<not> panel_drawn ops \<longrightarrow> (\<forall>op \<in> set ops. \<not> paints op))"
  proof (cases "caption_lines pd cfg = []")
    case False
    then have P: ?P using caption_lines_nonempty [of pd cfg] by blast
    then have any: ?any by blast
    from drawMessage_lines [OF False, of width height cv] P any show ?thesis by blast
  next
    case True
    then have nP: "\<not> ?P" using caption_lines_nonempty [of pd cfg] by blast
    show ?thesis
    proof (cases ?any)
      case True
      have r: "drawMessageOnCanvas no_throw pd (Some cfg) width height cv = Returned (cv @ [Save, Restore])"
        by (rule drawMessage_no_lines [OF True \<open>caption_lines pd cfg = []\<close>])
      have f: "\<not> panel_drawn [Save, Restore]" "texts_drawn [Save, Restore] = []"
        "\<forall>op \<in> set [Save, Restore]. \<not> paints op"
        by (simp_all add: panel_drawn_def texts_drawn_def)
      show ?thesis
        using nP by (intro exI [of _ "[Save, Restore]"]) (simp add: r f \<open>caption_lines pd cfg = []\<close>)
    next
      case False
      then have r: "drawMessageOnCanvas no_throw pd (Some cfg) width height cv = Returned (cv @ [])"
        using drawMessage_nothing [of cfg no_throw pd width height cv] by simp
      have f: "\<not> panel_drawn []" "texts_drawn [] = []" "\<forall>op \<in> set []. \<not> paints op"
        by (simp_all add: panel_drawn_def texts_drawn_def)
      show ?thesis
        using nP by (intro exI [of _ "[]"]) (simp add: r f \<open>caption_lines pd cfg = []\<close>)
    qed
  qed
  have B: "pd (fvalue (cfg_date cfg)) = None \<longrightarrow> (\<forall>y m d. DateLine y m d \<notin> set (caption_lines pd cfg))"
    using no_date_line [of pd cfg] by blast
  have C: "\<not> enabled (cfg_date cfg) \<and> \<not> enabled (cfg_text cfg) \<and> \<not> enabled (cfg_location cfg) \<longrightarrow>
        drawMessageOnCanvas thr pd (Some cfg) width height cv = Returned cv
        \<and> (messageConfig env = Some cfg \<longrightarrow>
             captureImage env st = captureImage (env\<lparr>messageConfig := None\<rparr>) st)"
    using drawMessage_nothing [of cfg thr pd width height cv] capture_without_caption [of env cfg st]
    by (simp add: has_field_def)
  show ?thesis using A B C by blast
qed

lemmas capture_eval = captureImage_def capture_env0_def app_state0_def video0_def crop_1920_1080
  layer1_def layer2_def layer3_def layer4_def drawFaceFilterOnCanvas_def drawMessageOnCanvas_def
  emit_def Let_def text_only_def has_field_def caption_lines_def js_round_def capture_failed_def
  g0_def no_throw_def

theorem caption_block_witness:
  "has_field (cfg_date bad_date_only) \<and> one_date (fvalue (cfg_date bad_date_only)) = None
   \<and> drawMessageOnCanvas no_throw one_date (Some bad_date_only) 1440 1080 [] = Returned [Save, Restore]
   \<and> \<not> panel_drawn [Save, Restore]
   \<and> (\<exists>ops. drawMessageOnCanvas no_throw one_date (Some text_only) 1440 1080 [] = Returned ops
          \<and> panel_drawn ops \<and> texts_drawn ops = [TextLine ''Happy''])
   \<and> drawMessageOnCanvas text_throws one_date (Some all_off) 1440 1080 [] = Returned []
   \<and> captureImage (capture_env0\<lparr>messageConfig := Some all_off\<rparr>) app_state0
      = captureImage (capture_env0\<lparr>messageConfig := None\<rparr>) app_state0"
  using caption_block [of one_date bad_date_only 1440 1080 "[]" text_throws capture_env0 app_state0]
    caption_block [of one_date text_only 1440 1080 "[]" text_throws capture_env0 app_state0]
    caption_block [of one_date all_off 1440 1080 "[]" text_throws
      "capture_env0\<lparr>messageConfig := Some all_off\<rparr>" app_state0]
  by (simp add: bad_date_only_def one_date_def all_off_def text_only_def has_field_def
      caption_lines_def panel_drawn_def drawMessageOnCanvas_def emit_def no_throw_def Let_def)

section \<open>Capture compositor: failures\<close>

lemma layer1_cases:
  "layer1 env g = (if layer1_throws env g
      then Thrown (if throws env (video_op env g) then video_op env g
                   else PixelPass (the (pixel_pass_of env)))
             (if throws env (video_op env g) then [] else [video_op env g])
      else Returned (layer1_ops env g))"
  by (auto simp: layer1_def layer1_throws_def layer1_ops_def pixel_pass_of_def video_op_def
      emit_def Let_def split: option.splits)

text \<open>
  C5, as stated, fails: with a 1920 x 1080 front camera and a one-line caption, let every
  \<open>fillText\<close> throw. \<open>drawMessageOnCanvas\<close> throws at the first line, after the panel has been
  filled and stroked; the \<open>try {...} catch (_) {}\<close> around layer 4 discards the exception,
  the work canvas (camera frame and an empty panel) is copied to the result canvas, the
  result screen is shown and no alert is raised.
\<close>

theorem swallowed_throw_surfaces_partial_composite:
  "swallowed (captureImage (capture_env0\<lparr>throws := text_throws\<rparr>) app_state0)
      = [FillText (TextLine ''Happy'') 721 (9673 / 10) Shadow]
   \<and> screen (captureImage (capture_env0\<lparr>throws := text_throws\<rparr>) app_state0) = ''result''
   \<and> alerts (captureImage (capture_env0\<lparr>throws := text_throws\<rparr>) app_state0) = []
   \<and> cv_ops (resultCanvas (captureImage (capture_env0\<lparr>throws := text_throws\<rparr>) app_state0))
      = [DrawVideo ''none'' True g0, Save, FillPanel (432 / 5) (4569 / 5) (6336 / 5) 123, StrokePanel]
   \<and> resultCanvas (captureImage (capture_env0\<lparr>throws := text_throws\<rparr>) app_state0)
      \<noteq> resultCanvas app_state0"
  by (simp add: capture_eval)

text \<open>
  C5, amended. The source frame being ready, the capture is aborted exactly when a call
  outside the three guarded layers throws, and there are two such places. If drawing the
  camera frame or the filter's pixel pass throws, the generic retry alert is raised, the
  capture button is enabled again, and the result canvas and the screen are unchanged.
  Otherwise the decoration, frame and caption layers never abort the capture: an exception
  in one of them is discarded by that layer's own \<open>try\<close>/\<open>catch\<close>, the layer stops there and
  the later layers are drawn; the result canvas is then given the output size. If the
  final copy to the result canvas does not throw, the result canvas receives the work
  canvas, partial or not, and the result screen is shown without any alert. If the final
  copy throws, the generic retry alert is raised, the capture button is enabled again and
  the screen is unchanged, but the result canvas is not: it has been resized and is empty.
  The result screen is shown only when neither place throws.
\<close>

theorem capture_aborts_on_unguarded_throw_only:
  assumes "cameraVideo env = Some v" and "videoWidth v \<noteq> 0" and "videoHeight v \<noteq> 0"
    and "g = crop_and_scale (videoWidth v) (videoHeight v)"
    and "st' = captureImage env st"
  shows "(layer1_throws env g \<longrightarrow>
            st' = st\<lparr>alerts := alerts st @ [CaptureFailed], captureBtn_disabled := False\<rparr>
            \<and> resultCanvas st' = resultCanvas st \<and> screen st' = screen st)
    \<and> (\<not> layer1_throws env g \<longrightarrow>
            swallowed st' = swallowed st
                 @ thrown_of (layer2 env g (layer1_ops env g))
                 @ thrown_of (layer3 env g (canvas_of (layer2 env g (layer1_ops env g))))
                 @ thrown_of (layer4 env g (canvas_of (layer3 env g (canvas_of (layer2 env g (layer1_ops env g))))))
            \<and> cv_width (resultCanvas st') = outW g \<and> cv_height (resultCanvas st') = outH g)
    \<and> (\<not> layer1_throws env g \<and> \<not> throws env Transfer \<longrightarrow>
            screen st' = ''result'' \<and> alerts st' = alerts st
            \<and> captureBtn_disabled st' = captureBtn_disabled st
            \<and> cv_ops (resultCanvas st') =
                 canvas_of (layer4 env g (canvas_of (layer3 env g (canvas_of (layer2 env g (layer1_ops env g)))))))
    \<and> (\<not> layer1_throws env g \<and> throws env Transfer \<longrightarrow>
            screen st' = screen st \<and> alerts st' = alerts st @ [CaptureFailed]
            \<and> captureBtn_disabled st' = False
            \<and> cv_ops (resultCanvas st') = [])
    \<and> (alerts st' = alerts st @ [CaptureFailed] \<longleftrightarrow> layer1_throws env g \<or> throws env Transfer)
    \<and> (screen st' = ''result'' \<and> screen st \<noteq> ''result'' \<longrightarrow>
          \<not> layer1_throws env g \<and> \<not> throws env Transfer)"
  unfolding assms(5)
  using assms(1-3)
  by (simp add: captureImage_def assms(4) [symmetric] layer1_cases capture_failed_def Let_def)

theorem capture_aborts_on_unguarded_throw_only_witness:
  "cameraVideo (capture_env0\<lparr>throws := video_throws\<rparr>) = Some video0
   \<and> cameraVideo capture_env_noise = Some video0
   \<and> videoWidth video0 \<noteq> 0 \<and> videoHeight video0 \<noteq> 0
   \<and> g0 = crop_and_scale (videoWidth video0) (videoHeight video0)
   \<and> layer1_throws (capture_env0\<lparr>throws := video_throws\<rparr>) g0
   \<and> captureImage (capture_env0\<lparr>throws := video_throws\<rparr>) app_state0
        = app_state0\<lparr>alerts := [CaptureFailed], captureBtn_disabled := False\<rparr>
   \<and> \<not> throws capture_env_noise (video_op capture_env_noise g0)
   \<and> layer1_throws capture_env_noise g0
   \<and> captureImage capture_env_noise app_state0
        = app_state0\<lparr>alerts := [CaptureFailed], captureBtn_disabled := False\<rparr>
   \<and> \<not> layer1_throws (capture_env0\<lparr>throws := text_throws\<rparr>) g0
   \<and> \<not> throws (capture_env0\<lparr>throws := text_throws\<rparr>) Transfer
   \<and> screen (captureImage (capture_env0\<lparr>throws := text_throws\<rparr>) app_state0) = ''result''
   \<and> alerts (captureImage (capture_env0\<lparr>throws := text_throws\<rparr>) app_state0) = []
   \<and> thrown_of (layer4 (capture_env0\<lparr>throws := text_throws\<rparr>) g0
          (layer1_ops (capture_env0\<lparr>throws := text_throws\<rparr>) g0)) \<noteq> []
   \<and> \<not> layer1_throws (capture_env0\<lparr>throws := text_and_copy_throw\<rparr>) g0
   \<and> throws (capture_env0\<lparr>throws := text_and_copy_throw\<rparr>) Transfer
   \<and> screen (captureImage (capture_env0\<lparr>throws := text_and_copy_throw\<rparr>) app_state0) = ''camera''
   \<and> alerts (captureImage (capture_env0\<lparr>throws := text_and_copy_throw\<rparr>) app_state0) = [CaptureFailed]
   \<and> resultCanvas (captureImage (capture_env0\<lparr>throws := text_and_copy_throw\<rparr>) app_state0)
        = \<lparr>cv_width = 1440, cv_height = 1080, cv_ops = []\<rparr>"
  using capture_aborts_on_unguarded_throw_only [of "capture_env0\<lparr>throws := video_throws\<rparr>" video0 g0
      "captureImage (capture_env0\<lparr>throws := video_throws\<rparr>) app_state0" app_state0]
    capture_aborts_on_unguarded_throw_only [of capture_env_noise video0 g0
      "captureImage capture_env_noise app_state0" app_state0]
    capture_aborts_on_unguarded_throw_only [of "capture_env0\<lparr>throws := text_throws\<rparr>" video0 g0
      "captureImage (capture_env0\<lparr>throws := text_throws\<rparr>) app_state0" app_state0]
    capture_aborts_on_unguarded_throw_only [of "capture_env0\<lparr>throws := text_and_copy_throw\<rparr>" video0 g0
      "captureImage (capture_env0\<lparr>throws := text_and_copy_throw\<rparr>) app_state0" app_state0]
  by (simp add: capture_eval layer1_throws_def layer1_ops_def video_op_def pixel_pass_of_def
      capture_env_noise_def noise_filter_def)

section \<open>Filter effects engine: properties\<close>

lemma toUint8Clamp_range: "0 \<le> toUint8Clamp x \<and> toUint8Clamp x \<le> 255"
proof -
  have "0 < x \<Longrightarrow> x < 255 \<Longrightarrow> 0 \<le> \<lfloor>x\<rfloor> \<and> \<lfloor>x\<rfloor> + 1 \<le> 255"
    by (simp add: floor_less_iff le_floor_iff)
  then show ?thesis
    by (auto simp: toUint8Clamp_def Let_def)
qed

lemma is_bytes_update: "is_bytes d \<Longrightarrow> 0 \<le> v \<Longrightarrow> v \<le> 255 \<Longrightarrow> is_bytes (d[i := v])"
  unfolding is_bytes_def list_all_iff using set_update_subset_insert [of d i v] by auto

lemma is_bytes_clamp: "is_bytes d \<Longrightarrow> is_bytes (d[i := toUint8Clamp x])"
  using toUint8Clamp_range [of x] by (simp add: is_bytes_update)

lemma is_bytes_grain_pixel: "is_bytes d \<Longrightarrow> is_bytes (grain_pixel intensity colorGrain rnd k i d)"
  by (simp add: grain_pixel_def grain_px_def Let_def is_bytes_clamp)

lemma is_bytes_grain_loop: "is_bytes data \<Longrightarrow> is_bytes (fst (grain_loop intensity colorGrain rnd k i data))"
proof (induction intensity colorGrain rnd k i data rule: grain_loop.induct)
  case (1 intensity colorGrain rnd k i data)
  show ?case
    apply (subst grain_loop.simps)
    using 1 by (simp add: is_bytes_grain_pixel)
qed

lemma is_bytes_applyGrain: "is_bytes data \<Longrightarrow> is_bytes (fst (applyGrain intensity colorGrain rnd k data))"
  by (simp add: applyGrain_def is_bytes_grain_loop)

lemma is_bytes_sketch_px: "is_bytes d \<Longrightarrow> is_bytes (sketch_px w copy y x d)"
  by (simp add: sketch_px_def Let_def is_bytes_clamp)

lemma is_bytes_fold: "(\<And>x d. is_bytes d \<Longrightarrow> is_bytes (f x d)) \<Longrightarrow> is_bytes d \<Longrightarrow> is_bytes (fold f xs d)"
  by (induction xs arbitrary: d) auto

lemma is_bytes_applySketch: "is_bytes data \<Longrightarrow> is_bytes (applySketch w h data)"
  unfolding applySketch_def
  by (intro is_bytes_fold is_bytes_sketch_px)

lemma is_bytes_saturate_px: "is_bytes d \<Longrightarrow> is_bytes (saturate_px i d)"
  by (simp add: saturate_px_def Let_def is_bytes_clamp)

lemma is_bytes_saturate_loop: "is_bytes data \<Longrightarrow> is_bytes (saturate_loop i data)"
proof (induction i data rule: saturate_loop.induct)
  case (1 i data)
  show ?case
    apply (subst saturate_loop.simps)
    using 1 by (simp add: is_bytes_saturate_px)
qed

lemma is_bytes_uniform: "0 \<le> c \<Longrightarrow> c \<le> 255 \<Longrightarrow> is_bytes (uniform_image w h c)"
  by (auto simp: is_bytes_def uniform_image_def list_all_iff)


lemma length_grain_pixel [simp]: "length (grain_pixel intensity colorGrain rnd k i data) = length data"
  by (simp add: grain_pixel_def Let_def)

lemma grain_pixel_nth:
  assumes "i + 2 < length data"
  shows "grain_pixel intensity colorGrain rnd k i data ! j =
     (if i \<le> j \<and> j < i + 3 then grain_px (data ! j) (grain_noise intensity colorGrain rnd k (j - i))
      else data ! j)"
proof -
  consider "j = i" | "j = i + 1" | "j = i + 2" | "j < i \<or> i + 3 \<le> j" by linarith
  then show ?thesis
  proof cases
    case 1
    then show ?thesis using assms
      by (simp add: grain_pixel_def Let_def grain_noise_def)
  next
    case 2
    then show ?thesis using assms
      by (simp add: grain_pixel_def Let_def grain_noise_def)
  next
    case 3
    then show ?thesis using assms
      by (simp add: grain_pixel_def Let_def grain_noise_def numeral_2_eq_2 numeral_3_eq_3)
  next
    case 4
    then show ?thesis using assms
      by (auto simp: grain_pixel_def Let_def)
  qed
qed

lemma grain_loop_nth:
  assumes "length data = 4 * n" "m \<le> n" "p < n" "c < 4"
  shows "fst (grain_loop intensity colorGrain rnd k (4 * m) data) ! (4 * p + c) =
     (if m \<le> p \<and> c < 3
      then grain_px (data ! (4 * p + c))
             (grain_noise intensity colorGrain rnd (k + grain_draws colorGrain * (p - m)) c)
      else data ! (4 * p + c))"
  using assms
proof (induction "n - m" arbitrary: m k data)
  case 0
  then have "\<not> 4 * m < length data" by simp
  then show ?case using 0 by (simp add: grain_loop.simps)
next
  case (Suc d)
  then have m: "m < n" by simp
  then have lt: "4 * m < length data" "4 * m + 2 < length data" using Suc.prems by simp_all
  let ?data' = "grain_pixel intensity colorGrain rnd k (4 * m) data"
  have step: "grain_loop intensity colorGrain rnd k (4 * m) data =
      grain_loop intensity colorGrain rnd (k + grain_draws colorGrain) (4 * Suc m) ?data'"
    using lt(1) by (subst grain_loop.simps) (simp add: add.commute)
  have ih: "fst (grain_loop intensity colorGrain rnd (k + grain_draws colorGrain) (4 * Suc m) ?data') ! (4 * p + c) =
     (if Suc m \<le> p \<and> c < 3
      then grain_px (?data' ! (4 * p + c))
             (grain_noise intensity colorGrain rnd (k + grain_draws colorGrain + grain_draws colorGrain * (p - Suc m)) c)
      else ?data' ! (4 * p + c))"
    using Suc.hyps(1) [of "Suc m" ?data' "k + grain_draws colorGrain"] Suc.hyps(2) Suc.prems m by simp
  have nth: "?data' ! (4 * p + c) =
     (if p = m \<and> c < 3 then grain_px (data ! (4 * p + c)) (grain_noise intensity colorGrain rnd k c)
      else data ! (4 * p + c))"
  proof -
    have cond: "(4 * m \<le> 4 * p + c \<and> 4 * p + c < 4 * m + 3) \<longleftrightarrow> (p = m \<and> c < 3)"
      using Suc.prems(4) by arith
    have off: "p = m \<Longrightarrow> 4 * p + c - 4 * m = c" by simp
    show ?thesis
      unfolding grain_pixel_nth [OF lt(2), of intensity colorGrain rnd k "4 * p + c"] cond
      using off by auto
  qed
  consider "p < m" | "p = m" | "Suc m \<le> p" by linarith
  then show ?case
  proof cases
    case 1
    then show ?thesis unfolding step ih nth by simp
  next
    case 2
    then show ?thesis unfolding step ih nth by simp
  next
    case 3
    then have "p - m = Suc (p - Suc m)" by simp
    then have e: "k + grain_draws colorGrain + grain_draws colorGrain * (p - Suc m)
        = k + grain_draws colorGrain * (p - m)"
      by simp
    show ?thesis unfolding step ih nth e using 3 by simp
  qed
qed

lemma grain_loop_snd:
  assumes "length data = 4 * n" "m \<le> n"
  shows "snd (grain_loop intensity colorGrain rnd k (4 * m) data) = k + grain_draws colorGrain * (n - m)"
  using assms
proof (induction "n - m" arbitrary: m k data)
  case 0
  then have "\<not> 4 * m < length data" by simp
  then show ?case using 0 by (simp add: grain_loop.simps)
next
  case (Suc d)
  then have m: "m < n" by simp
  then have lt: "4 * m < length data" using Suc.prems by simp
  let ?data' = "grain_pixel intensity colorGrain rnd k (4 * m) data"
  have step: "grain_loop intensity colorGrain rnd k (4 * m) data =
      grain_loop intensity colorGrain rnd (k + grain_draws colorGrain) (4 * Suc m) ?data'"
    using lt by (subst grain_loop.simps) (simp add: add.commute)
  have "snd (grain_loop intensity colorGrain rnd (k + grain_draws colorGrain) (4 * Suc m) ?data')
      = k + grain_draws colorGrain + grain_draws colorGrain * (n - Suc m)"
    using Suc.hyps(1) [of "Suc m" ?data' "k + grain_draws colorGrain"] Suc.hyps(2) Suc.prems m by simp
  also have "\<dots> = k + grain_draws colorGrain * (n - m)"
  proof -
    have "n - m = Suc (n - Suc m)" using m by simp
    then show ?thesis by simp
  qed
  finally show ?case unfolding step .
qed

lemma length_grain_loop: "length (fst (grain_loop intensity colorGrain rnd k i data)) = length data"
proof (induction intensity colorGrain rnd k i data rule: grain_loop.induct)
  case (1 intensity colorGrain rnd k i data)
  show ?case
    apply (subst grain_loop.simps)
    using 1 by simp
qed


lemma length_sketch_px [simp]: "length (sketch_px w copy y x data) = length data"
  by (simp add: sketch_px_def Let_def)

lemma sketch_px_other:
  assumes "j < (y * w + x) * 4 \<or> (y * w + x) * 4 + 2 < j"
  shows "sketch_px w copy y x data ! j = data ! j"
proof -
  have "j \<noteq> (y * w + x) * 4" "j \<noteq> (y * w + x) * 4 + 1" "j \<noteq> (y * w + x) * 4 + 2"
    using assms by linarith+
  then show ?thesis
    by (simp add: sketch_px_def Let_def)
qed

lemma fold_row_other:
  assumes "\<forall>x \<in> set xs. j < (y * w + x) * 4 \<or> (y * w + x) * 4 + 2 < j"
  shows "fold (sketch_px w copy y) xs d ! j = d ! j"
  using assms by (induction xs arbitrary: d) (simp_all add: sketch_px_other)

lemma fold_rows_other:
  assumes "\<forall>y \<in> set ys. \<forall>x \<in> set xs. j < (y * w + x) * 4 \<or> (y * w + x) * 4 + 2 < j"
  shows "fold (\<lambda>y d. fold (sketch_px w copy y) xs d) ys d ! j = d ! j"
  using assms by (induction ys arbitrary: d) (simp_all add: fold_row_other)

lemma pixel_index_unique:
  fixes w :: nat
  assumes "b * w + a = y * w + x" "a < w" "x < w"
  shows "b = y \<and> a = x"
proof -
  have "(b * w + a) div w = b" "(y * w + x) div w = y" using assms(2,3) by simp_all
  then have "b = y" using assms(1) by simp
  then show ?thesis using assms(1) by simp
qed

lemma written_index:
  fixes w :: nat
  assumes "(y * w + x) * 4 \<le> (b * w + a) * 4 + c" "(b * w + a) * 4 + c \<le> (y * w + x) * 4 + 2"
    "c < 4" "a < w" "x < w"
  shows "b = y \<and> a = x \<and> c < 3"
proof -
  have "b * w + a = y * w + x" using assms(1-3) by arith
  then have "b = y \<and> a = x" using assms(4,5) by (rule pixel_index_unique)
  moreover have "c < 3" using assms(1,2) \<open>b * w + a = y * w + x\<close> by simp
  ultimately show ?thesis by simp
qed

lemma applySketch_untouched:
  assumes "a < w" "c < 4" "\<not> (1 \<le> a \<and> a < w - 1 \<and> 1 \<le> b \<and> b < h - 1 \<and> c < 3)"
  shows "applySketch w h data ! ((b * w + a) * 4 + c) = data ! ((b * w + a) * 4 + c)"
  unfolding applySketch_def
proof (rule fold_rows_other, intro ballI)
  fix y x assume y: "y \<in> set [1 ..< h - 1]" and x: "x \<in> set [1 ..< w - 1]"
  show "(b * w + a) * 4 + c < (y * w + x) * 4 \<or> (y * w + x) * 4 + 2 < (b * w + a) * 4 + c"
  proof (rule ccontr)
    assume "\<not> ?thesis"
    then have "(y * w + x) * 4 \<le> (b * w + a) * 4 + c" "(b * w + a) * 4 + c \<le> (y * w + x) * 4 + 2"
      by simp_all
    moreover have "x < w" using x by auto
    ultimately have "b = y \<and> a = x \<and> c < 3"
      using written_index [of y w x b a c] assms(1,2) by blast
    with x y assms(3) show False by simp
  qed
qed

lemma length_applySketch: "length (applySketch w h data) = length data"
proof -
  have r: "length (fold (sketch_px w copy y) xs d) = length d" for copy y xs d
    by (induction xs arbitrary: d) simp_all
  have "length (fold (\<lambda>y d. fold (sketch_px w copy y) xs d) ys d) = length d" for copy xs ys d
    by (induction ys arbitrary: d) (simp_all add: r)
  then show ?thesis by (simp add: applySketch_def)
qed


lemma upt_1_2: "[Suc 0 ..< 2] = [Suc 0]"
  by (simp add: upt_rec)

lemma sk_val: "sketch_val 3 black3x3 16 = 255"
  by (simp add: sketch_val_def gray_def black3x3_def Let_def)

lemma sk_ex: "applySketch 3 3 black3x3 =
     [0, 0, 0, 255, 0, 0, 0, 255, 0, 0, 0, 255,
      0, 0, 0, 255, 255, 255, 255, 255, 0, 0, 0, 255,
      0, 0, 0, 255, 0, 0, 0, 255, 0, 0, 0, 255]"
  by (simp add: applySketch_def upt_1_2 sketch_px_def Let_def sk_val toUint8Clamp_def)
    (simp add: black3x3_def)

lemma applyGrain_pixel:
  assumes "length data = 4 * n" "p < n" "c < 3"
  shows "fst (applyGrain intensity colorGrain rnd k data) ! (4 * p + c) =
     grain_px (data ! (4 * p + c)) (grain_noise intensity colorGrain rnd (k + grain_draws colorGrain * p) c)"
  using grain_loop_nth [of data n 0 p c intensity colorGrain rnd k] assms
  by (simp add: applyGrain_def)


lemma applyGrain_alpha:
  assumes "length data = 4 * n" "p < n"
  shows "fst (applyGrain intensity colorGrain rnd k data) ! (4 * p + 3) = data ! (4 * p + 3)"
  using grain_loop_nth [of data n 0 p 3 intensity colorGrain rnd k] assms
  by (simp add: applyGrain_def)

lemma applyGrain_draws:
  assumes "length data = 4 * n"
  shows "snd (applyGrain intensity colorGrain rnd k data) = k + grain_draws colorGrain * n"
  using grain_loop_snd [of data n 0 intensity colorGrain rnd k] assms
  by (simp add: applyGrain_def)

lemma noise_range:
  fixes r intensity :: real
  assumes "0 \<le> r" "r < 1" "0 \<le> intensity"
  shows "- intensity \<le> (r - 1 / 2) * intensity * 2" "(r - 1 / 2) * intensity * 2 \<le> intensity"
    "\<bar>(r - 1 / 2) * intensity * (6 / 10)\<bar> \<le> intensity * (3 / 10)"
proof -
  define X where "X = (r - 1 / 2) * intensity"
  have up: "X \<le> (1 / 2) * intensity"
    unfolding X_def using assms by (intro mult_right_mono) auto
  have lo: "(- (1 / 2)) * intensity \<le> X"
    unfolding X_def using assms by (intro mult_right_mono) auto
  show "- intensity \<le> (r - 1 / 2) * intensity * 2" "(r - 1 / 2) * intensity * 2 \<le> intensity"
    "\<bar>(r - 1 / 2) * intensity * (6 / 10)\<bar> \<le> intensity * (3 / 10)"
    unfolding X_def [symmetric] using up lo by (simp_all add: abs_le_iff)
qed

text \<open>
  C6, as stated, fails in the default mode: on one grey pixel the pass draws once and
  adds the same noise (22) to the three channels, where independent draws for the three
  channels add 22, -22 and 0.
\<close>

theorem default_grain_is_shared_across_channels:
  "fst (applyGrain 44 False rnd3 0 grey_pixel) = [122, 122, 122, 255]
   \<and> snd (applyGrain 44 False rnd3 0 grey_pixel) = 1
   \<and> map (spec_default_grain 44 rnd3 0 grey_pixel 0) [0, 1, 2] = [122, 78, 100]
   \<and> fst (applyGrain 44 False rnd3 0 grey_pixel) ! 1 \<noteq> spec_default_grain 44 rnd3 0 grey_pixel 0 1"
  by (simp add: applyGrain_def grain_loop.simps grain_pixel_def grain_draws_def grain_px_def
      toUint8Clamp_def rnd3_def grey_pixel_def spec_default_grain_def Let_def)

text \<open>
  C6, amended. For every pixel of the surface: in the default mode the pass draws one
  number per pixel and adds the same noise, in \<open>[-intensity, intensity]\<close>, to the three
  channels; in the colour mode it draws four and adds to each channel the pixel's base
  noise plus that channel's own noise, within \<open>0.3 * intensity\<close> of zero. Each sum is clamped
  to 0..255 and rounded on the store; the alpha channel is left alone.
\<close>

theorem grain_noise_per_pixel:
  assumes "length data = 4 * n" and "p < n" and "c < 3" and "0 \<le> intensity" and "unit_random rnd"
  shows "fst (applyGrain intensity False rnd k data) ! (4 * p + c)
           = grain_px (data ! (4 * p + c)) ((rnd (k + p) - 1 / 2) * intensity * 2)
    \<and> - intensity \<le> (rnd (k + p) - 1 / 2) * intensity * 2
    \<and> (rnd (k + p) - 1 / 2) * intensity * 2 \<le> intensity
    \<and> snd (applyGrain intensity False rnd k data) = k + n
    \<and> fst (applyGrain intensity True rnd k data) ! (4 * p + c)
           = grain_px (data ! (4 * p + c))
               ((rnd (k + 4 * p) - 1 / 2) * intensity * 2
                + (rnd (k + 4 * p + 1 + c) - 1 / 2) * intensity * (6 / 10))
    \<and> \<bar>(rnd (k + 4 * p + 1 + c) - 1 / 2) * intensity * (6 / 10)\<bar> \<le> intensity * (3 / 10)
    \<and> snd (applyGrain intensity True rnd k data) = k + 4 * n
    \<and> fst (applyGrain intensity colorGrain rnd k data) ! (4 * p + 3) = data ! (4 * p + 3)
    \<and> length (fst (applyGrain intensity colorGrain rnd k data)) = length data"
proof -
  have u: "0 \<le> rnd j" "rnd j < 1" for j using assms(5) by (simp_all add: unit_random_def)
  have d: "fst (applyGrain intensity False rnd k data) ! (4 * p + c)
           = grain_px (data ! (4 * p + c)) ((rnd (k + p) - 1 / 2) * intensity * 2)"
    using applyGrain_pixel [OF assms(1-3), of intensity False rnd k]
    by (simp add: grain_noise_def grain_draws_def)
  have cg: "fst (applyGrain intensity True rnd k data) ! (4 * p + c)
           = grain_px (data ! (4 * p + c))
               ((rnd (k + 4 * p) - 1 / 2) * intensity * 2
                + (rnd (k + 4 * p + 1 + c) - 1 / 2) * intensity * (6 / 10))"
    using applyGrain_pixel [OF assms(1-3), of intensity True rnd k]
    by (simp add: grain_noise_def grain_draws_def)
  have s: "snd (applyGrain intensity False rnd k data) = k + n"
    "snd (applyGrain intensity True rnd k data) = k + 4 * n"
    using applyGrain_draws [OF assms(1)] by (simp_all add: grain_draws_def)
  have a: "fst (applyGrain intensity colorGrain rnd k data) ! (4 * p + 3) = data ! (4 * p + 3)"
    by (rule applyGrain_alpha [OF assms(1,2)])
  have l: "length (fst (applyGrain intensity colorGrain rnd k data)) = length data"
    by (simp add: applyGrain_def length_grain_loop)
  note r1 = noise_range [OF u [of "k + p"] assms(4)]
  note r2 = noise_range [OF u [of "k + 4 * p + 1 + c"] assms(4)]
  show ?thesis
    using d r1(1,2) s(1) cg r2(3) s(2) a l by blast
qed

theorem grain_noise_per_pixel_witness:
  "fst (applyGrain 44 False rnd3 0 grey_pixel) ! 0 = 122
   \<and> - 44 \<le> (rnd3 0 - 1 / 2) * 44 * 2
   \<and> snd (applyGrain 44 False rnd3 0 grey_pixel) = 1
   \<and> fst (applyGrain 44 True rnd3 0 grey_pixel) ! 0 = 115
   \<and> snd (applyGrain 44 True rnd3 0 grey_pixel) = 4
   \<and> fst (applyGrain 44 True rnd3 0 grey_pixel) ! 3 = 255"
proof -
  have h: "length grey_pixel = 4 * 1" "(0::nat) < 1" "(0::nat) < 3" "(0::real) \<le> 44" "unit_random rnd3"
    by (simp_all add: grey_pixel_def unit_random_def rnd3_def)
  show ?thesis
    using grain_noise_per_pixel [OF h, of 0 True]
    by (simp add: grey_pixel_def rnd3_def grain_px_def toUint8Clamp_def)
qed

text \<open>
  C1, as stated, fails for the grain pass: on a 3 x 3 grey surface the red channel of the
  corner pixel (0, 0) goes from 100 to 122.
\<close>

theorem grain_changes_border_pixel:
  "length grey3x3 = 4 * (3 * 3) \<and> grey3x3 ! 0 = 100
   \<and> fst (applyGrain 44 False rnd_34 0 grey3x3) ! 0 = 122"
  using applyGrain_pixel [of grey3x3 9 0 0 44 False rnd_34 0]
  by (simp add: grey3x3_def grain_px_def grain_noise_def toUint8Clamp_def grain_draws_def rnd_34_def)

text \<open>
  C1, amended. The sketch pass leaves every pixel of the border ring unchanged, and the
  alpha channel of every pixel: it writes the three colour channels of interior pixels
  only. The grain pass treats a border pixel as any other pixel.
\<close>

theorem sketch_writes_interior_only:
  assumes "a < w" and "b < h" and "c < 4"
    and "a = 0 \<or> b = 0 \<or> a = w - 1 \<or> b = h - 1 \<or> c = 3"
  shows "applySketch w h data ! ((b * w + a) * 4 + c) = data ! ((b * w + a) * 4 + c)
    \<and> length (applySketch w h data) = length data
    \<and> (c < 3 \<and> length data = 4 * (w * h) \<longrightarrow>
         fst (applyGrain intensity colorGrain rnd k data) ! ((b * w + a) * 4 + c)
           = grain_px (data ! ((b * w + a) * 4 + c))
               (grain_noise intensity colorGrain rnd (k + grain_draws colorGrain * (b * w + a)) c))"
proof -
  have ni: "\<not> (1 \<le> a \<and> a < w - 1 \<and> 1 \<le> b \<and> b < h - 1 \<and> c < 3)"
    using assms(4) by auto
  have s: "applySketch w h data ! ((b * w + a) * 4 + c) = data ! ((b * w + a) * 4 + c)"
    by (rule applySketch_untouched [OF assms(1,3) ni])
  have "Suc b * w \<le> h * w" using assms(2) by (intro mult_le_mono1) simp
  then have p: "b * w + a < w * h" using assms(1) by (simp add: mult.commute)
  have g: "c < 3 \<and> length data = 4 * (w * h) \<longrightarrow>
         fst (applyGrain intensity colorGrain rnd k data) ! ((b * w + a) * 4 + c)
           = grain_px (data ! ((b * w + a) * 4 + c))
               (grain_noise intensity colorGrain rnd (k + grain_draws colorGrain * (b * w + a)) c)"
    using applyGrain_pixel [of data "w * h" "b * w + a" c intensity colorGrain rnd k] p
    by (simp add: mult.commute)
  show ?thesis using s g by (simp add: length_applySketch)
qed

theorem sketch_writes_interior_only_witness:
  "applySketch 3 3 black3x3 ! 0 = black3x3 ! 0
   \<and> length (applySketch 3 3 black3x3) = length black3x3
   \<and> applySketch 3 3 black3x3 ! 16 = 255 \<and> black3x3 ! 16 = 0
   \<and> fst (applyGrain 44 False rnd_34 0 black3x3) ! 0 = 22"
proof -
  have h: "(0::nat) < 3" "(0::nat) < 4" "(0::nat) = 0 \<or> (0::nat) = 0 \<or> (0::nat) = 3 - 1 \<or> (0::nat) = 3 - 1 \<or> (0::nat) = 3"
    by simp_all
  show ?thesis
    using sketch_writes_interior_only [OF h(1) h(1) h(2) h(3), of black3x3 44 False rnd_34 0]
    by (simp add: sk_ex) (simp add: black3x3_def grain_px_def grain_noise_def toUint8Clamp_def rnd_34_def)
qed

text \<open>
  C7. On a uniformly black or uniformly white surface (and on any surface of bytes), each
  of the five passes applied twice in a row leaves every channel of every pixel in
  0..255. The platform's painting operations are taken to return bytes, as every canvas
  does.
\<close>

theorem passes_twice_stay_in_range:
  assumes "d = uniform_image w h 0 \<or> d = uniform_image w h 255"
    and "\<forall>x. is_bytes x \<longrightarrow> is_bytes (blur5 x)"
    and "\<forall>g x. is_bytes x \<longrightarrow> is_bytes (fillRect g x)"
    and "\<forall>r b a s x. is_bytes s \<and> is_bytes x \<longrightarrow> is_bytes (screenLayer r b a s x)"
  shows "is_bytes d
    \<and> is_bytes (fst (applyGrain intensity colorGrain rnd (snd (applyGrain intensity colorGrain rnd k d))
                     (fst (applyGrain intensity colorGrain rnd k d))))
    \<and> is_bytes (applySketch w h (applySketch w h d))
    \<and> is_bytes (fst (applyWatercolor blur5 rnd (snd (applyWatercolor blur5 rnd k d))
                     (fst (applyWatercolor blur5 rnd k d))))
    \<and> is_bytes (applyVignette fillRect w h strength (applyVignette fillRect w h strength d))
    \<and> is_bytes (applyGlow screenLayer (applyGlow screenLayer d))"
proof -
  have d: "is_bytes d" using assms(1) by (auto simp: is_bytes_uniform)
  have wc: "is_bytes x \<Longrightarrow> is_bytes (fst (applyWatercolor blur5 rnd j x))" for x j
    using assms(2) by (simp add: applyWatercolor_def is_bytes_applyGrain is_bytes_saturate_loop)
  have vg: "is_bytes x \<Longrightarrow> is_bytes (applyVignette fillRect w h strength x)" for x
    using assms(3) by (simp add: applyVignette_def)
  have gl: "is_bytes x \<Longrightarrow> is_bytes (applyGlow screenLayer x)" for x
    using assms(4) by (simp add: applyGlow_def Let_def)
  show ?thesis
    using d by (simp add: is_bytes_applyGrain is_bytes_applySketch wc vg gl)
qed


theorem passes_twice_stay_in_range_witness:
  "is_bytes (uniform_image 3 3 0)
   \<and> is_bytes (fst (applyGrain 44 True rnd3 (snd (applyGrain 44 True rnd3 0 (uniform_image 3 3 0)))
                     (fst (applyGrain 44 True rnd3 0 (uniform_image 3 3 0)))))
   \<and> is_bytes (applySketch 3 3 (applySketch 3 3 (uniform_image 3 3 0)))
   \<and> is_bytes (fst (applyWatercolor (same_painter ()) rnd3
                     (snd (applyWatercolor (same_painter ()) rnd3 0 (uniform_image 3 3 0)))
                     (fst (applyWatercolor (same_painter ()) rnd3 0 (uniform_image 3 3 0)))))
   \<and> is_bytes (applyVignette same_painter 3 3 (58 / 100)
                 (applyVignette same_painter 3 3 (58 / 100) (uniform_image 3 3 0)))
   \<and> is_bytes (applyGlow same_layer (applyGlow same_layer (uniform_image 3 3 0)))"
proof -
  have h: "uniform_image 3 3 0 = uniform_image 3 3 0 \<or> uniform_image 3 3 0 = uniform_image 3 3 255"
    "\<forall>x. is_bytes x \<longrightarrow> is_bytes (same_painter () x)"
    "\<forall>(g::radial_gradient) x. is_bytes x \<longrightarrow> is_bytes (same_painter g x)"
    "\<forall>r b a s x. is_bytes s \<and> is_bytes x \<longrightarrow> is_bytes (same_layer r b a s x)"
    by (simp_all add: same_painter_def same_layer_def)
  show ?thesis
    using passes_twice_stay_in_range [OF h, of 44 True rnd3 0 "58 / 100"] by simp
qed

end
